theory Spec2Isabelle
  imports Complex_Main "HOL-Library.Sublist"
begin

section \<open>Strings and characters\<close>

text \<open>
  A JavaScript string is a sequence of UTF-16 code units.  The model works over
  \<^typ>\<open>string\<close>, a sequence of 256 code units: the code units \<open>0..255\<close> of
  JavaScript (ISO-8859-1), except that the unit \<open>0x97\<close>, a control character that
  no pattern of the sources mentions, stands for the em dash \<open>U+2014\<close> (its place in
  Windows-1252).  Every pattern of the sources is ASCII except for the em dash of
  the title-suffix pattern.  Documents with other code units are outside the model.
\<close>

definition code :: "char \<Rightarrow> nat" where
  "code c = of_char c"

text \<open>
  The letters of the alphabet: \<open>A-Z\<close> and \<open>a-z\<close>, and the accented capitals
  \<open>0xC0-0xDE\<close> and small letters \<open>0xE0-0xFE\<close> without the signs \<open>0xD7\<close> and \<open>0xF7\<close>.
\<close>

definition isUpper :: "nat \<Rightarrow> bool" where
  "isUpper n = ((65 \<le> n \<and> n \<le> 90) \<or> (192 \<le> n \<and> n \<le> 222 \<and> n \<noteq> 215))"

definition isLower :: "nat \<Rightarrow> bool" where
  "isLower n = ((97 \<le> n \<and> n \<le> 122) \<or> (224 \<le> n \<and> n \<le> 254 \<and> n \<noteq> 247))"

text \<open>\<open>String.prototype.toLowerCase\<close> on one code unit of the alphabet.\<close>

definition lowerChar :: "char \<Rightarrow> char" where
  "lowerChar c = (if isUpper (code c) then char_of (code c + 32) else c)"

definition toLowerCase :: "string \<Rightarrow> string" where
  "toLowerCase s = map lowerChar s"

text \<open>
  \<open>Canonicalize\<close> of the regular-expression semantics (flag \<open>i\<close>, no flag \<open>u\<close>):
  the upper-case form of the code unit.  The two letters of the alphabet whose
  upper-case form lies outside it (\<open>0xB5\<close>, \<open>0xFF\<close>) and \<open>0xDF\<close> are equivalent
  to no other code unit of the alphabet and stay as they are.
\<close>

definition canon :: "char \<Rightarrow> char" where
  "canon c = (if isLower (code c) then char_of (code c - 32) else c)"

text \<open>The em dash; it is neither a letter nor white space.\<close>

definition emDash :: char where
  "emDash = CHR 0x97"

text \<open>White space of \<open>\s\<close> and of \<open>trim\<close>: TAB, LF, VT, FF, CR, space, NBSP.\<close>

definition isSpace :: "char \<Rightarrow> bool" where
  "isSpace c = ((9 \<le> code c \<and> code c \<le> 13) \<or> code c = 32 \<or> code c = 160)"

definition trim :: "string \<Rightarrow> string" where
  "trim s = rev (dropWhile isSpace (rev (dropWhile isSpace s)))"

text \<open>\<open>s.includes(p)\<close> and \<open>s.indexOf(p) !== -1\<close>; \<open>s.endsWith(p)\<close>.\<close>

fun str_includes :: "string \<Rightarrow> string \<Rightarrow> bool" where
  "str_includes [] p = (p = [])"
| "str_includes (c # cs) p = (take (length p) (c # cs) = p \<or> str_includes cs p)"

definition endsWith :: "string \<Rightarrow> string \<Rightarrow> bool" where
  "endsWith s p = (length p \<le> length s \<and> drop (length s - length p) s = p)"

section \<open>Regular expressions\<close>

text \<open>
  The patterns of the sources use literals, character classes, greedy and lazy
  repetition of a single class, an optional character, alternation, capture groups,
  one back reference and the end anchor.  The matcher below is the backtracking
  matcher of the language definition restricted to these forms: alternatives are
  tried left to right, a greedy repetition tries the longest run first, a lazy one
  the shortest, and the first success is the result.
\<close>

datatype citem = Ch char | Range char char | Space | NonSpace

datatype atom = Set "citem list" | NSet "citem list"

datatype regex =
    Lit string
  | One atom
  | Star atom
  | LazyStar atom
  | Plus atom
  | Opt atom
  | Cat "regex list"
  | Alts "regex list"
  | Grp nat regex
  | Backref nat
  | Eos

fun citem_has :: "citem \<Rightarrow> char \<Rightarrow> bool" where
  "citem_has (Ch a) c = (a = c)"
| "citem_has (Range a b) c = (code a \<le> code c \<and> code c \<le> code b)"
| "citem_has Space c = isSpace c"
| "citem_has NonSpace c = (\<not> isSpace c)"

definition set_has :: "bool \<Rightarrow> citem list \<Rightarrow> char \<Rightarrow> bool" where
  "set_has ci items c =
     (if ci then (\<exists>i \<in> set items. citem_has i c \<or> citem_has i (canon c) \<or> citem_has i (lowerChar c))
      else (\<exists>i \<in> set items. citem_has i c))"

fun atom_has :: "bool \<Rightarrow> atom \<Rightarrow> char \<Rightarrow> bool" where
  "atom_has ci (Set items) c = set_has ci items c"
| "atom_has ci (NSet items) c = (\<not> set_has ci items c)"

definition same :: "bool \<Rightarrow> char \<Rightarrow> char \<Rightarrow> bool" where
  "same ci a c = (if ci then canon a = canon c else a = c)"

text \<open>
  \<open>strip ci l s\<close>: the subject after the literal \<open>l\<close>, if \<open>s\<close> starts with it.
\<close>

fun strip :: "bool \<Rightarrow> string \<Rightarrow> string \<Rightarrow> string option" where
  "strip ci [] s = Some s"
| "strip ci (a # as) [] = None"
| "strip ci (a # as) (c # cs) = (if same ci a c then strip ci as cs else None)"

text \<open>
  A capture is kept as the language definition keeps it, by its two ends: the
  subject from the start of the group on and the subject from its end on.
\<close>

type_synonym captures = "nat \<rightharpoonup> string \<times> string"

definition span :: "string \<times> string \<Rightarrow> string" where
  "span p = take (length (fst p) - length (snd p)) (fst p)"

datatype frame = R regex | Close nat string

fun rsize :: "regex \<Rightarrow> nat" where
  "rsize (Cat rs) = Suc (sum_list (map (\<lambda>r. Suc (rsize r)) rs))"
| "rsize (Alts rs) = Suc (sum_list (map (\<lambda>r. Suc (rsize r)) rs))"
| "rsize (Grp n r) = Suc (Suc (rsize r))"
| "rsize r = 0"

fun fsize :: "frame \<Rightarrow> nat" where
  "fsize (R r) = Suc (rsize r)"
| "fsize (Close n s) = 1"

text \<open>
  \<open>m ci k s caps\<close> matches the frames \<open>k\<close> in sequence against a prefix of \<open>s\<close> and
  returns the rest of the subject with the captures.  \<open>Close n s0\<close> ends group \<open>n\<close>,
  opened when the rest of the subject was \<open>s0\<close>.
\<close>

function m :: "bool \<Rightarrow> frame list \<Rightarrow> string \<Rightarrow> captures \<Rightarrow> (string \<times> captures) option" where
  "m ci [] s caps = Some (s, caps)"
| "m ci (R (Lit l) # k) s caps =
     (case strip ci l s of None \<Rightarrow> None | Some rest \<Rightarrow> m ci k rest caps)"
| "m ci (R (One a) # k) s caps =
     (case s of [] \<Rightarrow> None | c # cs \<Rightarrow> if atom_has ci a c then m ci k cs caps else None)"
| "m ci (R (Star a) # k) s caps =
     (case s of
        [] \<Rightarrow> m ci k s caps
      | c # cs \<Rightarrow>
          if atom_has ci a c
          then (case m ci (R (Star a) # k) cs caps of Some x \<Rightarrow> Some x | None \<Rightarrow> m ci k s caps)
          else m ci k s caps)"
| "m ci (R (LazyStar a) # k) s caps =
     (case m ci k s caps of
        Some x \<Rightarrow> Some x
      | None \<Rightarrow>
          (case s of [] \<Rightarrow> None
           | c # cs \<Rightarrow> if atom_has ci a c then m ci (R (LazyStar a) # k) cs caps else None))"
| "m ci (R (Plus a) # k) s caps =
     (case s of [] \<Rightarrow> None
      | c # cs \<Rightarrow> if atom_has ci a c then m ci (R (Star a) # k) cs caps else None)"
| "m ci (R (Opt a) # k) s caps =
     (case s of
        [] \<Rightarrow> m ci k s caps
      | c # cs \<Rightarrow>
          if atom_has ci a c
          then (case m ci k cs caps of Some x \<Rightarrow> Some x | None \<Rightarrow> m ci k s caps)
          else m ci k s caps)"
| "m ci (R (Cat rs) # k) s caps = m ci (map R rs @ k) s caps"
| "m ci (R (Alts []) # k) s caps = None"
| "m ci (R (Alts (r # rs)) # k) s caps =
     (case m ci (R r # k) s caps of Some x \<Rightarrow> Some x | None \<Rightarrow> m ci (R (Alts rs) # k) s caps)"
| "m ci (R (Grp n r) # k) s caps = m ci (R r # Close n s # k) s caps"
| "m ci (Close n s0 # k) s caps = m ci k s (caps(n \<mapsto> (s0, s)))"
| "m ci (R (Backref n) # k) s caps =
     (case caps n of
        None \<Rightarrow> m ci k s caps
      | Some p \<Rightarrow> (case strip ci (span p) s of None \<Rightarrow> None | Some rest \<Rightarrow> m ci k rest caps))"
| "m ci (R Eos # k) s caps = (if s = [] then m ci k s caps else None)"
  by pat_completeness auto
termination
  by (relation "inv_image (less_than <*lex*> less_than)
        (\<lambda>(ci, k, s, caps). (sum_list (map fsize k), length s))")
     (auto simp: comp_def)

text \<open>
  \<open>s.match(r)\<close> and \<open>r.exec(s)\<close> from index 0: the match at the leftmost start at
  which the pattern matches.  No pattern of the sources looks behind the start,
  so the match at a start depends only on the subject from there on.
\<close>

fun rx_match :: "bool \<Rightarrow> regex \<Rightarrow> string \<Rightarrow> (string \<times> captures) option" where
  "rx_match ci r [] = m ci [R r] [] Map.empty"
| "rx_match ci r (c # cs) =
     (case m ci [R r] (c # cs) Map.empty of Some x \<Rightarrow> Some x | None \<Rightarrow> rx_match ci r cs)"

definition rx_test :: "bool \<Rightarrow> regex \<Rightarrow> string \<Rightarrow> bool" where
  "rx_test ci r s = (rx_match ci r s \<noteq> None)"

text \<open>
  \<open>match[n]\<close>.  A group that took no part in the match is \<open>undefined\<close>; the sources
  only test it for truth or pass it to \<open>cleanText\<close>, both of which treat it as \<open>''\<close>.
\<close>

definition grp :: "captures \<Rightarrow> nat \<Rightarrow> string" where
  "grp caps n = (case caps n of None \<Rightarrow> [] | Some p \<Rightarrow> span p)"

text \<open>
  The loop \<open>while ((match = r.exec(s)) !== null)\<close> of a pattern with flag \<open>g\<close>: each
  search starts where the last match ended.  Both patterns driven this way begin
  with the literal \<open><\<close>, so every match consumes input (\<open>exec_all_progress\<close> below)
  and the last branch is never taken.
\<close>

function exec_all :: "bool \<Rightarrow> regex \<Rightarrow> string \<Rightarrow> captures list" where
  "exec_all ci r s =
     (case rx_match ci r s of
        None \<Rightarrow> []
      | Some (rest, caps) \<Rightarrow>
          if length rest < length s then caps # exec_all ci r rest else [])"
  by pat_completeness auto
termination
  by (relation "measure (\<lambda>(ci, r, s). length s)") auto

declare exec_all.simps [simp del]

text \<open>
  \<open>s.replace(r, rep)\<close> for a pattern with flag \<open>g\<close> and a replacement without \<open>$\<close>:
  matches are replaced from left to right; after an empty match one code unit is
  copied.
\<close>

function replace_all :: "bool \<Rightarrow> regex \<Rightarrow> string \<Rightarrow> string \<Rightarrow> string" where
  "replace_all ci r rep [] = (case m ci [R r] [] Map.empty of Some x \<Rightarrow> rep | None \<Rightarrow> [])"
| "replace_all ci r rep (c # cs) =
     (case m ci [R r] (c # cs) Map.empty of
        None \<Rightarrow> c # replace_all ci r rep cs
      | Some (rest, caps) \<Rightarrow>
          if length rest < length (c # cs) then rep @ replace_all ci r rep rest
          else rep @ c # replace_all ci r rep cs)"
  by pat_completeness auto
termination
  by (relation "measure (\<lambda>(ci, r, rep, s). length s)") auto

text \<open>\<open>s.replace(r, rep)\<close> for a pattern without flag \<open>g\<close>: the leftmost match only.\<close>

fun replace_first :: "bool \<Rightarrow> regex \<Rightarrow> string \<Rightarrow> string \<Rightarrow> string" where
  "replace_first ci r rep [] = (case m ci [R r] [] Map.empty of Some x \<Rightarrow> rep | None \<Rightarrow> [])"
| "replace_first ci r rep (c # cs) =
     (case m ci [R r] (c # cs) Map.empty of
        None \<Rightarrow> c # replace_first ci r rep cs
      | Some (rest, caps) \<Rightarrow> rep @ rest)"

text \<open>
  \<open>s.split(r)\<close> for a pattern without groups.  \<open>split_loop ci r acc s\<close> is the loop
  of the language definition with \<open>acc\<close> the piece from \<open>p\<close> to \<open>q\<close> and \<open>s\<close> the
  subject from \<open>q\<close> on: a match at \<open>q\<close> that ends at \<open>p\<close> is skipped, any other
  closes the piece.
\<close>

function split_loop :: "bool \<Rightarrow> regex \<Rightarrow> string \<Rightarrow> string \<Rightarrow> string list" where
  "split_loop ci r acc [] = [acc]"
| "split_loop ci r acc (c # cs) =
     (case m ci [R r] (c # cs) Map.empty of
        None \<Rightarrow> split_loop ci r (acc @ [c]) cs
      | Some (rest, caps) \<Rightarrow>
          if length rest < length (c # cs) then acc # split_loop ci r [] rest
          else if acc = [] then split_loop ci r [c] cs
          else acc # split_loop ci r [c] cs)"
  by pat_completeness auto
termination
  by (relation "measure (\<lambda>(ci, r, acc, s). length s)") auto

definition split :: "bool \<Rightarrow> regex \<Rightarrow> string \<Rightarrow> string list" where
  "split ci r s =
     (if s = [] then (case m ci [R r] [] Map.empty of Some x \<Rightarrow> [] | None \<Rightarrow> [[]])
      else split_loop ci r [] s)"

text \<open>\<open>parts.join(sep)\<close>.\<close>

fun join :: "string \<Rightarrow> string list \<Rightarrow> string" where
  "join sep [] = []"
| "join sep [x] = x"
| "join sep (x # y # ys) = x @ sep @ join sep (y # ys)"


section \<open>classify.ts\<close>

datatype LinkType = Pdf | X | Reddit | Job | Advertiser | Article

text \<open>\<open>/(careers|jobs|greenhouse\.io|lever\.co)/\<close> and \<open>/(ads?|advertis)/\<close>.\<close>

definition jobRegex :: regex where
  \<open>jobRegex = Grp 1 (Alts [Lit ''careers'', Lit ''jobs'', Lit ''greenhouse.io'', Lit ''lever.co''])\<close>

definition advertiserRegex :: regex where
  \<open>advertiserRegex = Grp 1 (Alts [Cat [Lit ''ad'', Opt (Set [Ch CHR ''s''])], Lit ''advertis''])\<close>

definition classify :: "string \<Rightarrow> LinkType" where
  \<open>classify url =
     (let s = toLowerCase url in
      if endsWith s ''.pdf'' \<or> str_includes s ''/pdf'' then Pdf
      else if str_includes s ''x.com'' \<or> str_includes s ''twitter.com'' then X
      else if str_includes s ''reddit.com'' then Reddit
      else if rx_test False jobRegex s then Job
      else if rx_test False advertiserRegex s then Advertiser
      else Article)\<close>

section \<open>parse.ts\<close>

subsection \<open>Values\<close>

text \<open>
  What \<open>JSON.parse\<close> returns.  An object is the list of its properties, each name
  once; a number is a rational with the truth value of the number (zero or not),
  which is all the sources read of it.  \<open>JSON.parse\<close> itself is a built-in of the
  platform and a parameter \<open>jp\<close> of the model: \<open>jp s = None\<close> when it throws
  (the sources catch that and skip the block).
\<close>

datatype json =
    JNull
  | JBool bool
  | JNum rat
  | JStr string
  | JArr "json list"
  | JObj "(string \<times> json) list"

text \<open>\<open>v.key\<close> for a value that is not \<open>null\<close>; \<open>None\<close> is \<open>undefined\<close>.\<close>

fun getProp :: "json \<Rightarrow> string \<Rightarrow> json option" where
  "getProp (JObj kvs) key = map_of kvs key"
| "getProp v key = None"

fun truthy :: "json option \<Rightarrow> bool" where
  "truthy None = False"
| "truthy (Some JNull) = False"
| "truthy (Some (JBool b)) = b"
| "truthy (Some (JNum n)) = (n \<noteq> 0)"
| "truthy (Some (JStr s)) = (s \<noteq> [])"
| "truthy (Some (JArr xs)) = True"
| "truthy (Some (JObj kvs)) = True"

text \<open>
  What a \<open>throw\<close> carries: an \<open>Error\<close> object with its message, or another value.
  Reading a property of \<open>null\<close> throws a \<open>TypeError\<close>, with the message of V8.
\<close>

datatype thrown = ErrorObj string | NonError

definition nullPropertyError :: "string \<Rightarrow> thrown" where
  \<open>nullPropertyError key =
     ErrorObj (''Cannot read properties of null (reading '' @ [CHR 0x27] @ key @ [CHR 0x27] @ '')'')\<close>

datatype ContentType = ArticleType | ShortForm | Minimal

subsection \<open>Character classes of the patterns\<close>

definition notGt :: atom where
  \<open>notGt = NSet [Ch CHR ''>'']\<close>

definition quote :: atom where
  \<open>quote = Set [Ch CHR 0x22, Ch CHR 0x27]\<close>

definition notQuote :: atom where
  \<open>notQuote = NSet [Ch CHR 0x22, Ch CHR 0x27]\<close>

definition notDquote :: atom where
  \<open>notDquote = NSet [Ch CHR 0x22]\<close>

definition anyChar :: atom where
  \<open>anyChar = Set [Space, NonSpace]\<close>

definition space :: atom where
  \<open>space = Set [Space]\<close>

subsection \<open>cleanText\<close>

definition cleanText :: "string \<Rightarrow> string" where
  \<open>cleanText text =
     (if text = [] then []
      else
        let t1 = replace_all False (Cat [Lit ''<'', Star notGt, Lit ''>'']) [] text;
            t2 = replace_all True (Lit ''&nbsp;'') '' '' t1;
            t3 = replace_all True
                   (Cat [Lit ''&'', Plus (Set [Ch CHR ''#'', Range CHR ''a'' CHR ''z'', Range CHR ''0'' CHR ''9'']),
                         Lit '';'']) '' '' t2;
            t4 = replace_all False (Plus space) '' '' t3
        in trim t4)\<close>

subsection \<open>extractMetaTag\<close>

text \<open>
  The two patterns are built from \<open>name\<close> by string interpolation; every name the
  sources pass is free of pattern metacharacters, so it stands for itself.
\<close>

definition metaRegexA :: "string \<Rightarrow> regex" where
  \<open>metaRegexA name =
     Cat [Lit ''<meta'', Star notGt, Alts [Lit ''name'', Lit ''property''], Lit ''='', One quote,
          Lit name, One quote, Star notGt, Lit ''content='', One quote, Grp 1 (Plus notQuote),
          One quote, Star notGt, Lit ''>'']\<close>

definition metaRegexB :: "string \<Rightarrow> regex" where
  \<open>metaRegexB name =
     Cat [Lit ''<meta'', Star notGt, Lit ''content='', One quote, Grp 1 (Plus notQuote), One quote,
          Star notGt, Alts [Lit ''name'', Lit ''property''], Lit ''='', One quote, Lit name,
          One quote, Star notGt, Lit ''>'']\<close>

definition metaMatch :: "string \<Rightarrow> string \<Rightarrow> (string \<times> captures) option" where
  \<open>metaMatch name html =
     (case rx_match True (metaRegexA name) html of
        Some x \<Rightarrow> Some x
      | None \<Rightarrow> rx_match True (metaRegexB name) html)\<close>

definition extractMetaTag :: "string \<Rightarrow> string \<Rightarrow> string" where
  \<open>extractMetaTag name html =
     (case metaMatch name html of Some (rest, caps) \<Rightarrow> cleanText (grp caps 1) | None \<Rightarrow> [])\<close>

subsection \<open>extractJsonLD\<close>

definition jsonLDRegex :: regex where
  \<open>jsonLDRegex =
     Cat [Lit ''<script'', Star notGt, Lit ''type='', One quote, Lit ''application/ld+json'', One quote,
          Star notGt, Lit ''>'', Grp 1 (LazyStar anyChar), Lit ''</script>'']\<close>

definition extractJsonLD :: "(string \<Rightarrow> json option) \<Rightarrow> string \<Rightarrow> json list" where
  \<open>extractJsonLD jp html =
     List.map_filter (\<lambda>caps. jp (grp caps 1)) (exec_all True jsonLDRegex html)\<close>

subsection \<open>extractMainContent\<close>

definition unwantedRegex :: regex where
  \<open>unwantedRegex =
     Alts [Cat [Lit ''<script'', Star notGt, Lit ''>'', LazyStar anyChar, Lit ''</script>''],
           Cat [Lit ''<style'', Star notGt, Lit ''>'', LazyStar anyChar, Lit ''</style>''],
           Cat [Lit ''<nav'', Star notGt, Lit ''>'', LazyStar anyChar, Lit ''</nav>''],
           Cat [Lit ''<header'', Star notGt, Lit ''>'', LazyStar anyChar, Lit ''</header>''],
           Cat [Lit ''<footer'', Star notGt, Lit ''>'', LazyStar anyChar, Lit ''</footer>''],
           Cat [Lit ''<aside'', Star notGt, Lit ''>'', LazyStar anyChar, Lit ''</aside>'']]\<close>

definition contentWrappers :: "regex list" where
  \<open>contentWrappers =
     [Cat [Lit ''<article'', Star notGt, Lit ''>'', Grp 1 (LazyStar anyChar), Lit ''</article>''],
      Cat [Lit ''<main'', Star notGt, Lit ''>'', Grp 1 (LazyStar anyChar), Lit ''</main>''],
      Cat [Lit ''<'', Star notGt, Lit ''class="'', Star notDquote,
           Grp 1 (Alts [Lit ''wp-block-post-content'', Lit ''entry-content'', Lit ''post-content'',
                        Lit ''article-content'']),
           Star notDquote, Lit ''"'', Star notGt, Lit ''>'', Grp 2 (LazyStar anyChar),
           Lit ''</'', Star notGt, Lit ''>''],
      Cat [Lit ''<div'', Star notGt, Lit ''class="'', Star notDquote,
           Grp 1 (Alts [Lit ''content'', Lit ''post'', Lit ''article'']),
           Star notDquote, Lit ''"'', Star notGt, Lit ''>'', Grp 2 (LazyStar anyChar),
           Lit ''</div>'']]\<close>

definition paragraphRegex :: regex where
  \<open>paragraphRegex =
     Cat [Lit ''<'',
          Grp 1 (Alts [Lit ''p'', Lit ''li'', Cat [Lit ''h'', One (Set [Range CHR ''1'' CHR ''6''])],
                       Lit ''blockquote'']),
          Star notGt, Lit ''>'', Grp 2 (LazyStar anyChar), Lit ''</'', Backref 1, Lit ''>'']\<close>

text \<open>One turn of the loop over \<open>contentWrappers\<close>; it reads \<open>match[1]\<close> for every pattern.\<close>

definition wrapperStep :: "string \<Rightarrow> regex \<Rightarrow> string \<Rightarrow> string" where
  \<open>wrapperStep cleanedHtml rx bodyHtml =
     (case rx_match True rx cleanedHtml of
        None \<Rightarrow> bodyHtml
      | Some (rest, caps) \<Rightarrow>
          if grp caps 1 \<noteq> [] \<and> length (grp caps 1) > length bodyHtml then grp caps 1
          else bodyHtml)\<close>

definition selectBody :: "string \<Rightarrow> string" where
  \<open>selectBody cleanedHtml =
     (let bodyHtml = fold (wrapperStep cleanedHtml) contentWrappers []
      in if bodyHtml = [] then cleanedHtml else bodyHtml)\<close>

definition extractMainContent :: "string \<Rightarrow> string" where
  \<open>extractMainContent html =
     (let cleanedHtml = replace_all True unwantedRegex [] html;
          bodyHtml = selectBody cleanedHtml;
          contentParts =
            filter (\<lambda>cleanedText. length cleanedText > 40)
              (map (\<lambda>caps. cleanText (grp caps 2)) (exec_all True paragraphRegex bodyHtml))
      in join [CHR 0x0A, CHR 0x0A] contentParts)\<close>


subsection \<open>extractSourceUrl\<close>

definition canonicalRegex :: regex where
  \<open>canonicalRegex =
     Cat [Lit ''<link'', Star notGt, Lit ''rel='', One quote, Lit ''canonical'', One quote, Star notGt,
          Lit ''href='', One quote, Grp 1 (Plus notQuote), One quote]\<close>

text \<open>The two sources in the document: the \<open>og:url\<close> meta tag, then the canonical link.\<close>

definition documentUrl :: "string \<Rightarrow> string" where
  \<open>documentUrl html =
     (let ogUrl = extractMetaTag ''og:url'' html in
      if ogUrl \<noteq> [] then ogUrl
      else (case rx_match True canonicalRegex html of
              Some (rest, caps) \<Rightarrow> grp caps 1
            | None \<Rightarrow> []))\<close>

text \<open>The optional argument \<open>providedUrl\<close> is \<open>None\<close> when the caller leaves it out.\<close>

definition extractSourceUrl :: "string \<Rightarrow> string option \<Rightarrow> string" where
  \<open>extractSourceUrl html providedUrl =
     (case providedUrl of
        Some u \<Rightarrow> if u \<noteq> [] then u else documentUrl html
      | None \<Rightarrow> documentUrl html)\<close>

subsection \<open>extractTitle\<close>

definition h1Regex :: regex where
  \<open>h1Regex = Cat [Lit ''<h1'', Star notGt, Lit ''>'', Grp 1 (LazyStar anyChar), Lit ''</h1>'']\<close>

definition titleRegex :: regex where
  \<open>titleRegex = Cat [Lit ''<title'', Star notGt, Lit ''>'', Grp 1 (LazyStar anyChar), Lit ''</title>'']\<close>

text \<open>
  \<open>/\s*[|\-\<emdash>]\s*[^|]+$/\<close>: the separator is a bar, a hyphen or an em dash.
\<close>

definition siteNameRegex :: regex where
  \<open>siteNameRegex =
     Cat [Star space, One (Set [Ch CHR ''|'', Ch CHR ''-'', Ch emDash]), Star space,
          Plus (NSet [Ch CHR ''|'']), Eos]\<close>

text \<open>The candidate of the \<open><h1>\<close> step and of the \<open><title>\<close> step, \<open>''\<close> when there is none.\<close>

definition h1Title :: "string \<Rightarrow> string" where
  \<open>h1Title html =
     (case rx_match True h1Regex html of
        Some (rest, caps) \<Rightarrow> if grp caps 1 \<noteq> [] then cleanText (grp caps 1) else []
      | None \<Rightarrow> [])\<close>

definition tagTitle :: "string \<Rightarrow> string" where
  \<open>tagTitle html =
     (case rx_match True titleRegex html of
        Some (rest, caps) \<Rightarrow>
          if grp caps 1 \<noteq> []
          then trim (replace_first False siteNameRegex [] (cleanText (grp caps 1)))
          else []
      | None \<Rightarrow> [])\<close>

definition extractTitle :: "string \<Rightarrow> string" where
  \<open>extractTitle html =
     (if extractMetaTag ''og:title'' html \<noteq> [] then extractMetaTag ''og:title'' html
      else if extractMetaTag ''twitter:title'' html \<noteq> [] then extractMetaTag ''twitter:title'' html
      else if h1Title html \<noteq> [] then h1Title html
      else if tagTitle html \<noteq> [] then tagTitle html
      else [])\<close>

subsection \<open>extractAuthor\<close>

definition relAuthorRegex :: regex where
  \<open>relAuthorRegex =
     Cat [Lit ''<'', Star notGt, Lit ''rel='', One quote, Lit ''author'', One quote, Star notGt, Lit ''>'',
          Grp 1 (LazyStar anyChar), Lit ''</'', Star notGt, Lit ''>'']\<close>

definition authorClassRegex :: regex where
  \<open>authorClassRegex =
     Cat [Lit ''<'', Star notGt, Lit ''class="'', Star notDquote,
          Grp 1 (Alts [Lit ''author'', Lit ''byline'', Lit ''writer'']),
          Star notDquote, Lit ''"'', Star notGt, Lit ''>'', Grp 2 (LazyStar anyChar),
          Lit ''</'', Star notGt, Lit ''>'']\<close>

text \<open>\<open>a || b || c\<close> on strings.\<close>

definition orElse :: "string \<Rightarrow> string \<Rightarrow> string" where
  \<open>orElse a b = (if a \<noteq> [] then a else b)\<close>

text \<open>
  The loop over the JSON-LD objects.  \<open>jsonLD.author\<close> throws when \<open>jsonLD\<close> is
  \<open>null\<close>; \<open>None\<close> is the loop running to its end.
\<close>

fun authorOfJsonLD :: "json list \<Rightarrow> thrown + json option" where
  \<open>authorOfJsonLD [] = Inr None\<close>
| \<open>authorOfJsonLD (jsonLD # rest) =
     (if jsonLD = JNull then Inl (nullPropertyError ''author'')
      else if truthy (getProp jsonLD ''author'') then
        (case getProp jsonLD ''author'' of
           Some (JStr a) \<Rightarrow> Inr (Some (JStr a))
         | Some a \<Rightarrow>
             if truthy (getProp a ''name'') then Inr (getProp a ''name'')
             else authorOfJsonLD rest
         | None \<Rightarrow> authorOfJsonLD rest)
      else authorOfJsonLD rest)\<close>

definition authorByClass :: "string \<Rightarrow> json" where
  \<open>authorByClass html =
     (case rx_match True authorClassRegex html of
        Some (rest, caps) \<Rightarrow>
          if grp caps 2 \<noteq> [] \<and> cleanText (grp caps 2) \<noteq> [] \<and> length (cleanText (grp caps 2)) < 100
          then JStr (cleanText (grp caps 2))
          else JNull
      | None \<Rightarrow> JNull)\<close>

definition relAuthor :: "string \<Rightarrow> string" where
  \<open>relAuthor html =
     (case rx_match True relAuthorRegex html of
        Some (rest, caps) \<Rightarrow> if grp caps 1 \<noteq> [] then cleanText (grp caps 1) else []
      | None \<Rightarrow> [])\<close>

definition extractAuthor :: "(string \<Rightarrow> json option) \<Rightarrow> string \<Rightarrow> thrown + json" where
  \<open>extractAuthor jp html =
     (let author = orElse (extractMetaTag ''author'' html)
                     (orElse (extractMetaTag ''article:author'' html)
                        (extractMetaTag ''twitter:creator'' html))
      in if author \<noteq> [] then Inr (JStr author)
         else if relAuthor html \<noteq> [] then Inr (JStr (relAuthor html))
         else (case authorOfJsonLD (extractJsonLD jp html) of
                 Inl e \<Rightarrow> Inl e
               | Inr (Some a) \<Rightarrow> Inr a
               | Inr None \<Rightarrow> Inr (authorByClass html)))\<close>

subsection \<open>extractPublishDate\<close>

definition timeRegex :: regex where
  \<open>timeRegex =
     Cat [Lit ''<time'', Star notGt, Lit ''datetime='', One quote, Grp 1 (Plus notQuote), One quote,
          Star notGt, Lit ''>'']\<close>

text \<open>\<open>jsonLD.datePublished || jsonLD.dateCreated || jsonLD.publishedAt\<close>.\<close>

definition dateOf :: "json \<Rightarrow> json option" where
  \<open>dateOf jsonLD =
     (if truthy (getProp jsonLD ''datePublished'') then getProp jsonLD ''datePublished''
      else if truthy (getProp jsonLD ''dateCreated'') then getProp jsonLD ''dateCreated''
      else getProp jsonLD ''publishedAt'')\<close>

fun dateOfJsonLD :: "json list \<Rightarrow> thrown + json" where
  \<open>dateOfJsonLD [] = Inr JNull\<close>
| \<open>dateOfJsonLD (jsonLD # rest) =
     (if jsonLD = JNull then Inl (nullPropertyError ''datePublished'')
      else if truthy (dateOf jsonLD) then (case dateOf jsonLD of Some d \<Rightarrow> Inr d | None \<Rightarrow> Inr JNull)
      else dateOfJsonLD rest)\<close>

definition extractPublishDate :: "(string \<Rightarrow> json option) \<Rightarrow> string \<Rightarrow> thrown + json" where
  \<open>extractPublishDate jp html =
     (let publishDate = orElse (extractMetaTag ''article:published_time'' html)
                          (orElse (extractMetaTag ''pubdate'' html) (extractMetaTag ''date'' html))
      in if publishDate \<noteq> [] then Inr (JStr publishDate)
         else (case rx_match True timeRegex html of
                 Some (rest, caps) \<Rightarrow>
                   if grp caps 1 \<noteq> [] then Inr (JStr (grp caps 1))
                   else dateOfJsonLD (extractJsonLD jp html)
               | None \<Rightarrow> dateOfJsonLD (extractJsonLD jp html)))\<close>

subsection \<open>extractSummary\<close>

definition summaryElementRegex :: regex where
  \<open>summaryElementRegex =
     Cat [Lit ''<'', Star notGt, Grp 1 (Alts [Lit ''id'', Lit ''class'']), Lit ''='', One quote,
          Alts [Lit ''speakable-summary'', Lit ''lead'', Lit ''summary'', Lit ''excerpt'', Lit ''abstract''],
          Star notQuote, One quote, Star notGt, Lit ''>'', Grp 2 (LazyStar anyChar),
          Lit ''</'', Star notGt, Lit ''>'']\<close>

definition firstParagraphRegex :: regex where
  \<open>firstParagraphRegex = Cat [Lit ''<p'', Star notGt, Lit ''>'', Grp 1 (LazyStar anyChar), Lit ''</p>'']\<close>

definition summaryElement :: "string \<Rightarrow> string" where
  \<open>summaryElement html =
     (case rx_match True summaryElementRegex html of
        Some (rest, caps) \<Rightarrow> if grp caps 2 \<noteq> [] then cleanText (grp caps 2) else []
      | None \<Rightarrow> [])\<close>

definition firstParagraph :: "string \<Rightarrow> string" where
  \<open>firstParagraph html =
     (case rx_match True firstParagraphRegex html of
        Some (rest, caps) \<Rightarrow>
          if grp caps 1 \<noteq> [] \<and> length (cleanText (grp caps 1)) > 50 \<and> length (cleanText (grp caps 1)) < 300
          then cleanText (grp caps 1)
          else []
      | None \<Rightarrow> [])\<close>

definition extractSummary :: "string \<Rightarrow> string" where
  \<open>extractSummary html =
     (let summary = orElse (extractMetaTag ''description'' html)
                      (orElse (extractMetaTag ''og:description'' html)
                         (extractMetaTag ''twitter:description'' html))
      in if summary \<noteq> [] then summary
         else if summaryElement html \<noteq> [] then summaryElement html
         else firstParagraph html)\<close>

subsection \<open>extractLanguage, determineContentType\<close>

definition langRegex :: regex where
  \<open>langRegex = Cat [Lit ''<html'', Star notGt, Lit ''lang='', One quote, Grp 1 (Plus notQuote), One quote]\<close>

definition extractLanguage :: "string \<Rightarrow> string" where
  \<open>extractLanguage html =
     (case rx_match True langRegex html of
        Some (rest, caps) \<Rightarrow> if grp caps 1 \<noteq> [] then grp caps 1 else ''unknown''
      | None \<Rightarrow> ''unknown'')\<close>

definition determineContentType :: "nat \<Rightarrow> ContentType" where
  \<open>determineContentType wordCount =
     (if wordCount > 500 then ArticleType
      else if wordCount > 100 then ShortForm
      else Minimal)\<close>

subsection \<open>parseHtml\<close>

record ParsedData =
  title :: string
  author :: json
  publishDate :: json
  summary :: string
  content :: string
  wordCount :: nat
  readingTime :: nat
  language :: string
  contentType :: ContentType

record ParsedContent =
  success :: bool
  extractedAt :: string
  sourceUrl :: string
  data :: ParsedData
  error :: "string option"

text \<open>The result of both failure paths: every field of \<open>data\<close> at its zero value.\<close>

definition failure :: "string \<Rightarrow> string option \<Rightarrow> string \<Rightarrow> ParsedContent" where
  \<open>failure now url msg =
     \<lparr>success = False,
      extractedAt = now,
      sourceUrl = (case url of Some u \<Rightarrow> u | None \<Rightarrow> []),
      data = \<lparr>title = [], author = JNull, publishDate = JNull, summary = [], content = [],
              wordCount = 0, readingTime = 0, language = ''unknown'', contentType = Minimal\<rparr>,
      error = Some msg\<rparr>\<close>

text \<open>
  \<open>content.split(/\s+/).filter(Boolean).length\<close> and \<open>Math.ceil(wordCount / 200)\<close>; the
  quotient of two integers of this size is exact enough in double precision for
  its ceiling to be the ceiling of the rational quotient.
\<close>

definition countWords :: "string \<Rightarrow> nat" where
  \<open>countWords s = length (filter (\<lambda>w. w \<noteq> []) (split False (Plus space) s))\<close>

definition readingTimeOf :: "nat \<Rightarrow> nat" where
  \<open>readingTimeOf n = nat \<lceil>real n / 200\<rceil>\<close>

text \<open>
  The body of the \<open>try\<close> block.  \<open>now\<close> is what \<open>new Date().toISOString()\<close> returns
  in this call.  Of the extractors only \<open>extractAuthor\<close> and \<open>extractPublishDate\<close>
  can throw, and they run in this order.
\<close>

definition parseHtmlTry ::
  "(string \<Rightarrow> json option) \<Rightarrow> string \<Rightarrow> string \<Rightarrow> string option \<Rightarrow> thrown + ParsedContent" where
  \<open>parseHtmlTry jp now html url =
     (if html = [] \<or> \<not> str_includes html ''<html''
      then Inr (failure now url ''No valid HTML content found'')
      else
        (case extractAuthor jp html of
           Inl e \<Rightarrow> Inl e
         | Inr a \<Rightarrow>
             (case extractPublishDate jp html of
                Inl e \<Rightarrow> Inl e
              | Inr d \<Rightarrow>
                  let c = extractMainContent html;
                      n = countWords c
                  in Inr \<lparr>success = True,
                          extractedAt = now,
                          sourceUrl = extractSourceUrl html url,
                          data = \<lparr>title = extractTitle html, author = a,
                                  publishDate = d, summary = extractSummary html,
                                  content = c, wordCount = n,
                                  readingTime = readingTimeOf n,
                                  language = extractLanguage html,
                                  contentType = determineContentType n\<rparr>,
                          error = None\<rparr>)))\<close>

text \<open>The \<open>catch\<close> clause: \<open>error instanceof Error ? error.message : 'Unknown parsing error'\<close>.\<close>

definition catchMessage :: "thrown \<Rightarrow> string" where
  \<open>catchMessage e = (case e of ErrorObj msg \<Rightarrow> msg | NonError \<Rightarrow> ''Unknown parsing error'')\<close>

definition parseHtml ::
  "(string \<Rightarrow> json option) \<Rightarrow> string \<Rightarrow> string \<Rightarrow> string option \<Rightarrow> ParsedContent" where
  \<open>parseHtml jp now html url =
     (case parseHtmlTry jp now html url of
        Inr result \<Rightarrow> result
      | Inl e \<Rightarrow> failure now url (catchMessage e))\<close>

text \<open>\<open>batchParseHtml\<close>; \<open>clock i\<close> is the time read in the call for document \<open>i\<close>.\<close>

definition batchParseHtml ::
  "(string \<Rightarrow> json option) \<Rightarrow> (nat \<Rightarrow> string) \<Rightarrow> (string \<times> string option) list \<Rightarrow> ParsedContent list" where
  \<open>batchParseHtml jp clock htmlDocuments =
     map (\<lambda>(i, html, url). parseHtml jp (clock i) html url) (enumerate 0 htmlDocuments)\<close>


section \<open>Definitions used in the statements and proofs\<close>

text \<open>
  \<open>can_start ci r c\<close> is a necessary condition for \<open>r\<close> to match a subject that
  starts with \<open>c\<close> (\<open>can_start_None\<close>); it lets a search skip a start position on
  its first code unit.
\<close>

fun can_start :: "bool \<Rightarrow> regex \<Rightarrow> char \<Rightarrow> bool" where
  "can_start ci (Lit (a # as)) c = same ci a c"
| "can_start ci (One a) c = atom_has ci a c"
| "can_start ci (Plus a) c = atom_has ci a c"
| "can_start ci (Cat (Lit (a # as) # rs)) c = same ci a c"
| "can_start ci (Cat (Plus a # rs)) c = atom_has ci a c"
| "can_start ci (Alts []) c = False"
| "can_start ci (Alts (r # rs)) c = (can_start ci r c \<or> can_start ci (Alts rs) c)"
| "can_start ci (Grp n r) c = can_start ci r c"
| "can_start ci r c = True"

text \<open>
  A stand-in for \<open>JSON.parse\<close> in concrete runs: it agrees with \<open>JSON.parse\<close> on the
  text \<open>null\<close>, the only text the runs below hand to it.
\<close>

definition jsonParseNull :: "string \<Rightarrow> json option" where
  \<open>jsonParseNull s = (if s = ''null'' then Some JNull else None)\<close>

text \<open>Two documents: one paragraph of ten words; a JSON-LD block that holds \<open>null\<close>.\<close>

definition docWords :: string where
  \<open>docWords = ''<html><p>one two three four five six seven eight nine ten</p>''\<close>

definition docNullJsonLD :: string where
  \<open>docNullJsonLD = ''<html><script type="application/ld+json">null</script>''\<close>

text \<open>
  The words of a text as the specification counts them: the text is cut at every
  white-space code unit and the empty pieces are dropped.
\<close>

fun splitOn :: "(char \<Rightarrow> bool) \<Rightarrow> string \<Rightarrow> string list" where
  "splitOn sep [] = [[]]"
| "splitOn sep (c # cs) =
     (if sep c then [] # splitOn sep cs
      else (case splitOn sep cs of [] \<Rightarrow> [[c]] | w # ws \<Rightarrow> (c # w) # ws))"

definition tokens :: "string \<Rightarrow> string list" where
  "tokens s = filter (\<lambda>w. w \<noteq> []) (splitOn isSpace s)"


text \<open>
  A stand-in for \<open>JSON.parse\<close> that agrees with it on the one text the run on
  \<open>docAuthorNames\<close> hands to it, an object whose author has a list of names.
\<close>

definition jsonParseAuthorNames :: "string \<Rightarrow> json option" where
  \<open>jsonParseAuthorNames s =
     (if s = ''{"author":{"name":["Ann","Bob"]}}''
      then Some (JObj [(''author'', JObj [(''name'', JArr [JStr ''Ann'', JStr ''Bob''])])])
      else None)\<close>

definition docAuthorNames :: string where
  \<open>docAuthorNames = ''<html><script type="application/ld+json">{"author":{"name":["Ann","Bob"]}}</script>''\<close>






definition docHyphenTitle :: string where
  \<open>docHyphenTitle = ''<html><title>A well-known fact - Example</title>''\<close>




text \<open>A document with an \<open><article>\<close> beside a longer \<open><div class="post">\<close>.\<close>

definition docTwoContainers :: string where
  \<open>docTwoContainers = ''<html><article><p>Teaser</p></article><div class="post"><p>The full story is told here in more than forty characters.</p></div>''\<close>



definition docPreformatted :: string where
  \<open>docPreformatted = ''<html><pre>0123456789 0123456789 0123456789 0123456789 012345</pre><p>Short.</p>''\<close>



section \<open>Characters\<close>

lemma code_char_of: "n < 256 \<Longrightarrow> code (char_of n) = n"
  by (simp add: code_def)

lemma code_inj: "(code a = code c) = (a = c)"
  by (simp add: code_def)

lemma code_lt: "code c < 256"
  by (simp add: code_def)

lemma lower_upper:
  "isLower x \<Longrightarrow> isUpper (x - 32) \<and> \<not> isLower (x - 32) \<and> \<not> isUpper x \<and> 32 \<le> x"
  unfolding isLower_def isUpper_def by arith

lemma upper_lower: "isUpper x \<Longrightarrow> isLower (x + 32) \<and> \<not> isUpper (x + 32) \<and> \<not> isLower x"
  unfolding isLower_def isUpper_def by arith

lemma code_canon: "code (canon c) = (if isLower (code c) then code c - 32 else code c)"
  using code_lt [of c] by (simp add: canon_def code_char_of)

lemma code_lowerChar: "code (lowerChar c) = (if isUpper (code c) then code c + 32 else code c)"
  using code_lt [of c] by (simp add: lowerChar_def code_char_of isUpper_def)

text \<open>Two code units are equal up to case iff one is the other or its other case.\<close>

lemma same_True: "same True a c = (c = a \<or> c = canon a \<or> c = lowerChar a)"
proof -
  define x y where "x = code a" and "y = code c"
  have "((if isLower x then x - 32 else x) = (if isLower y then y - 32 else y))
        = (y = x \<or> y = (if isLower x then x - 32 else x) \<or> y = (if isUpper x then x + 32 else x))"
  proof (cases "isLower x"; cases "isLower y")
    assume a: "isLower x" "isLower y"
    from lower_upper [OF a(1)] lower_upper [OF a(2)] a show ?thesis by auto
  next
    assume a: "isLower x" "\<not> isLower y"
    from lower_upper [OF a(1)] a show ?thesis by auto
  next
    assume a: "\<not> isLower x" "isLower y"
    from lower_upper [OF a(2)] upper_lower [of x] a show ?thesis by (cases "isUpper x") auto
  next
    assume a: "\<not> isLower x" "\<not> isLower y"
    from upper_lower [of x] a show ?thesis by (cases "isUpper x") auto
  qed
  then show ?thesis
    unfolding same_def code_inj [symmetric] code_canon code_lowerChar x_def y_def by simp
qed

lemma same_False: "same False a c = (c = a)"
  by (auto simp: same_def)

text \<open>
  With flag \<open>i\<close> a class holds a code unit iff it holds one with the same canonical
  form, which is how the language definition puts it.
\<close>

lemma set_has_canon:
  "set_has True items c = (\<exists>a. (\<exists>i \<in> set items. citem_has i a) \<and> canon a = canon c)"
proof -
  have "(canon a = canon c) = (a = c \<or> a = canon c \<or> a = lowerChar c)" for a
    using same_True [of c a] by (simp add: same_def eq_commute)
  then show ?thesis
    unfolding set_has_def by auto
qed

lemma canon_table:
  "canon (CHR '' '') = CHR '' ''"
  "canon (CHR ''!'') = CHR ''!''"
  "canon (CHR 0x22) = CHR 0x22"
  "canon (CHR ''#'') = CHR ''#''"
  "canon (CHR ''$'') = CHR ''$''"
  "canon (CHR ''%'') = CHR ''%''"
  "canon (CHR ''&'') = CHR ''&''"
  "canon (CHR 0x27) = CHR 0x27"
  "canon (CHR ''('') = CHR ''(''"
  "canon (CHR '')'') = CHR '')''"
  "canon (CHR ''*'') = CHR ''*''"
  "canon (CHR ''+'') = CHR ''+''"
  "canon (CHR '','') = CHR '',''"
  "canon (CHR ''-'') = CHR ''-''"
  "canon (CHR ''.'') = CHR ''.''"
  "canon (CHR ''/'') = CHR ''/''"
  "canon (CHR ''0'') = CHR ''0''"
  "canon (CHR ''1'') = CHR ''1''"
  "canon (CHR ''2'') = CHR ''2''"
  "canon (CHR ''3'') = CHR ''3''"
  "canon (CHR ''4'') = CHR ''4''"
  "canon (CHR ''5'') = CHR ''5''"
  "canon (CHR ''6'') = CHR ''6''"
  "canon (CHR ''7'') = CHR ''7''"
  "canon (CHR ''8'') = CHR ''8''"
  "canon (CHR ''9'') = CHR ''9''"
  "canon (CHR '':'') = CHR '':''"
  "canon (CHR '';'') = CHR '';''"
  "canon (CHR ''<'') = CHR ''<''"
  "canon (CHR ''='') = CHR ''=''"
  "canon (CHR ''>'') = CHR ''>''"
  "canon (CHR ''?'') = CHR ''?''"
  "canon (CHR ''@'') = CHR ''@''"
  "canon (CHR ''A'') = CHR ''A''"
  "canon (CHR ''B'') = CHR ''B''"
  "canon (CHR ''C'') = CHR ''C''"
  "canon (CHR ''D'') = CHR ''D''"
  "canon (CHR ''E'') = CHR ''E''"
  "canon (CHR ''F'') = CHR ''F''"
  "canon (CHR ''G'') = CHR ''G''"
  "canon (CHR ''H'') = CHR ''H''"
  "canon (CHR ''I'') = CHR ''I''"
  "canon (CHR ''J'') = CHR ''J''"
  "canon (CHR ''K'') = CHR ''K''"
  "canon (CHR ''L'') = CHR ''L''"
  "canon (CHR ''M'') = CHR ''M''"
  "canon (CHR ''N'') = CHR ''N''"
  "canon (CHR ''O'') = CHR ''O''"
  "canon (CHR ''P'') = CHR ''P''"
  "canon (CHR ''Q'') = CHR ''Q''"
  "canon (CHR ''R'') = CHR ''R''"
  "canon (CHR ''S'') = CHR ''S''"
  "canon (CHR ''T'') = CHR ''T''"
  "canon (CHR ''U'') = CHR ''U''"
  "canon (CHR ''V'') = CHR ''V''"
  "canon (CHR ''W'') = CHR ''W''"
  "canon (CHR ''X'') = CHR ''X''"
  "canon (CHR ''Y'') = CHR ''Y''"
  "canon (CHR ''Z'') = CHR ''Z''"
  "canon (CHR ''['') = CHR ''[''"
  "canon (CHR 0x5C) = CHR 0x5C"
  "canon (CHR '']'') = CHR '']''"
  "canon (CHR ''^'') = CHR ''^''"
  "canon (CHR ''_'') = CHR ''_''"
  "canon (CHR 0x60) = CHR 0x60"
  "canon (CHR ''a'') = CHR ''A''"
  "canon (CHR ''b'') = CHR ''B''"
  "canon (CHR ''c'') = CHR ''C''"
  "canon (CHR ''d'') = CHR ''D''"
  "canon (CHR ''e'') = CHR ''E''"
  "canon (CHR ''f'') = CHR ''F''"
  "canon (CHR ''g'') = CHR ''G''"
  "canon (CHR ''h'') = CHR ''H''"
  "canon (CHR ''i'') = CHR ''I''"
  "canon (CHR ''j'') = CHR ''J''"
  "canon (CHR ''k'') = CHR ''K''"
  "canon (CHR ''l'') = CHR ''L''"
  "canon (CHR ''m'') = CHR ''M''"
  "canon (CHR ''n'') = CHR ''N''"
  "canon (CHR ''o'') = CHR ''O''"
  "canon (CHR ''p'') = CHR ''P''"
  "canon (CHR ''q'') = CHR ''Q''"
  "canon (CHR ''r'') = CHR ''R''"
  "canon (CHR ''s'') = CHR ''S''"
  "canon (CHR ''t'') = CHR ''T''"
  "canon (CHR ''u'') = CHR ''U''"
  "canon (CHR ''v'') = CHR ''V''"
  "canon (CHR ''w'') = CHR ''W''"
  "canon (CHR ''x'') = CHR ''X''"
  "canon (CHR ''y'') = CHR ''Y''"
  "canon (CHR ''z'') = CHR ''Z''"
  "canon (CHR ''{'') = CHR ''{''"
  "canon (CHR ''|'') = CHR ''|''"
  "canon (CHR ''}'') = CHR ''}''"
  "canon (CHR ''~'') = CHR ''~''"
  by (simp_all add: canon_def code_def isLower_def char_of_eq_iff take_bit_eq_mod)

lemma lowerChar_table:
  "lowerChar (CHR '' '') = CHR '' ''"
  "lowerChar (CHR ''!'') = CHR ''!''"
  "lowerChar (CHR 0x22) = CHR 0x22"
  "lowerChar (CHR ''#'') = CHR ''#''"
  "lowerChar (CHR ''$'') = CHR ''$''"
  "lowerChar (CHR ''%'') = CHR ''%''"
  "lowerChar (CHR ''&'') = CHR ''&''"
  "lowerChar (CHR 0x27) = CHR 0x27"
  "lowerChar (CHR ''('') = CHR ''(''"
  "lowerChar (CHR '')'') = CHR '')''"
  "lowerChar (CHR ''*'') = CHR ''*''"
  "lowerChar (CHR ''+'') = CHR ''+''"
  "lowerChar (CHR '','') = CHR '',''"
  "lowerChar (CHR ''-'') = CHR ''-''"
  "lowerChar (CHR ''.'') = CHR ''.''"
  "lowerChar (CHR ''/'') = CHR ''/''"
  "lowerChar (CHR ''0'') = CHR ''0''"
  "lowerChar (CHR ''1'') = CHR ''1''"
  "lowerChar (CHR ''2'') = CHR ''2''"
  "lowerChar (CHR ''3'') = CHR ''3''"
  "lowerChar (CHR ''4'') = CHR ''4''"
  "lowerChar (CHR ''5'') = CHR ''5''"
  "lowerChar (CHR ''6'') = CHR ''6''"
  "lowerChar (CHR ''7'') = CHR ''7''"
  "lowerChar (CHR ''8'') = CHR ''8''"
  "lowerChar (CHR ''9'') = CHR ''9''"
  "lowerChar (CHR '':'') = CHR '':''"
  "lowerChar (CHR '';'') = CHR '';''"
  "lowerChar (CHR ''<'') = CHR ''<''"
  "lowerChar (CHR ''='') = CHR ''=''"
  "lowerChar (CHR ''>'') = CHR ''>''"
  "lowerChar (CHR ''?'') = CHR ''?''"
  "lowerChar (CHR ''@'') = CHR ''@''"
  "lowerChar (CHR ''A'') = CHR ''a''"
  "lowerChar (CHR ''B'') = CHR ''b''"
  "lowerChar (CHR ''C'') = CHR ''c''"
  "lowerChar (CHR ''D'') = CHR ''d''"
  "lowerChar (CHR ''E'') = CHR ''e''"
  "lowerChar (CHR ''F'') = CHR ''f''"
  "lowerChar (CHR ''G'') = CHR ''g''"
  "lowerChar (CHR ''H'') = CHR ''h''"
  "lowerChar (CHR ''I'') = CHR ''i''"
  "lowerChar (CHR ''J'') = CHR ''j''"
  "lowerChar (CHR ''K'') = CHR ''k''"
  "lowerChar (CHR ''L'') = CHR ''l''"
  "lowerChar (CHR ''M'') = CHR ''m''"
  "lowerChar (CHR ''N'') = CHR ''n''"
  "lowerChar (CHR ''O'') = CHR ''o''"
  "lowerChar (CHR ''P'') = CHR ''p''"
  "lowerChar (CHR ''Q'') = CHR ''q''"
  "lowerChar (CHR ''R'') = CHR ''r''"
  "lowerChar (CHR ''S'') = CHR ''s''"
  "lowerChar (CHR ''T'') = CHR ''t''"
  "lowerChar (CHR ''U'') = CHR ''u''"
  "lowerChar (CHR ''V'') = CHR ''v''"
  "lowerChar (CHR ''W'') = CHR ''w''"
  "lowerChar (CHR ''X'') = CHR ''x''"
  "lowerChar (CHR ''Y'') = CHR ''y''"
  "lowerChar (CHR ''Z'') = CHR ''z''"
  "lowerChar (CHR ''['') = CHR ''[''"
  "lowerChar (CHR 0x5C) = CHR 0x5C"
  "lowerChar (CHR '']'') = CHR '']''"
  "lowerChar (CHR ''^'') = CHR ''^''"
  "lowerChar (CHR ''_'') = CHR ''_''"
  "lowerChar (CHR 0x60) = CHR 0x60"
  "lowerChar (CHR ''a'') = CHR ''a''"
  "lowerChar (CHR ''b'') = CHR ''b''"
  "lowerChar (CHR ''c'') = CHR ''c''"
  "lowerChar (CHR ''d'') = CHR ''d''"
  "lowerChar (CHR ''e'') = CHR ''e''"
  "lowerChar (CHR ''f'') = CHR ''f''"
  "lowerChar (CHR ''g'') = CHR ''g''"
  "lowerChar (CHR ''h'') = CHR ''h''"
  "lowerChar (CHR ''i'') = CHR ''i''"
  "lowerChar (CHR ''j'') = CHR ''j''"
  "lowerChar (CHR ''k'') = CHR ''k''"
  "lowerChar (CHR ''l'') = CHR ''l''"
  "lowerChar (CHR ''m'') = CHR ''m''"
  "lowerChar (CHR ''n'') = CHR ''n''"
  "lowerChar (CHR ''o'') = CHR ''o''"
  "lowerChar (CHR ''p'') = CHR ''p''"
  "lowerChar (CHR ''q'') = CHR ''q''"
  "lowerChar (CHR ''r'') = CHR ''r''"
  "lowerChar (CHR ''s'') = CHR ''s''"
  "lowerChar (CHR ''t'') = CHR ''t''"
  "lowerChar (CHR ''u'') = CHR ''u''"
  "lowerChar (CHR ''v'') = CHR ''v''"
  "lowerChar (CHR ''w'') = CHR ''w''"
  "lowerChar (CHR ''x'') = CHR ''x''"
  "lowerChar (CHR ''y'') = CHR ''y''"
  "lowerChar (CHR ''z'') = CHR ''z''"
  "lowerChar (CHR ''{'') = CHR ''{''"
  "lowerChar (CHR ''|'') = CHR ''|''"
  "lowerChar (CHR ''}'') = CHR ''}''"
  "lowerChar (CHR ''~'') = CHR ''~''"
  by (simp_all add: lowerChar_def code_def isUpper_def char_of_eq_iff take_bit_eq_mod)

lemma isSpace_eq:
  "isSpace c = (c = CHR 0x09 \<or> c = CHR 0x0A \<or> c = CHR 0x0B \<or> c = CHR 0x0C \<or> c = CHR 0x0D
               \<or> c = CHR '' '' \<or> c = CHR 0xA0)"
proof -
  have e: "\<And>d. (c = d) = (code c = code d)"
    by (simp add: code_inj)
  show ?thesis
    unfolding e isSpace_def by (simp add: code_def) arith
qed

text \<open>A code unit that is no letter is alone in its class.\<close>

lemma canon_eq_nonletter:
  assumes "\<not> isLower (code d)" "\<not> isUpper (code d)"
  shows "(canon c = d) = (c = d)" "(lowerChar c = d) = (c = d)"
    "(d = canon c) = (c = d)" "(d = lowerChar c) = (c = d)"
proof -
  show 1: "(canon c = d) = (c = d)"
    unfolding code_inj [symmetric] code_canon using assms lower_upper [of "code c"] by auto
  show 2: "(lowerChar c = d) = (c = d)"
    unfolding code_inj [symmetric] code_lowerChar using assms upper_lower [of "code c"] by auto
  show "(d = canon c) = (c = d)" using 1 by auto
  show "(d = lowerChar c) = (c = d)" using 2 by auto
qed

lemma isSpace_canon: "isSpace (canon c) = isSpace c" "isSpace (lowerChar c) = isSpace c"
proof -
  show "isSpace (canon c) = isSpace c"
    unfolding isSpace_def code_canon isLower_def by arith
  show "isSpace (lowerChar c) = isSpace c"
    unfolding isSpace_def code_lowerChar isUpper_def by arith
qed

lemma nonletters:
  "\<not> isLower (code (CHR ''>''))" "\<not> isUpper (code (CHR ''>''))"
  "\<not> isLower (code (CHR 0x22))" "\<not> isUpper (code (CHR 0x22))"
  "\<not> isLower (code (CHR 0x27))" "\<not> isUpper (code (CHR 0x27))"
  "\<not> isLower (code (CHR ''<''))" "\<not> isUpper (code (CHR ''<''))"
  by (simp_all add: code_def isLower_def isUpper_def)

lemma atom_notGt: "atom_has ci notGt c = (c \<noteq> CHR ''>'')"
  by (auto simp: notGt_def set_has_def canon_eq_nonletter nonletters)

lemma atom_quote: "atom_has ci quote c = (c = CHR 0x22 \<or> c = CHR 0x27)"
  by (auto simp: quote_def set_has_def canon_eq_nonletter nonletters)

lemma atom_notQuote: "atom_has ci notQuote c = (c \<noteq> CHR 0x22 \<and> c \<noteq> CHR 0x27)"
  by (auto simp: notQuote_def set_has_def canon_eq_nonletter nonletters)

lemma atom_notDquote: "atom_has ci notDquote c = (c \<noteq> CHR 0x22)"
  by (auto simp: notDquote_def set_has_def canon_eq_nonletter nonletters)

lemma atom_anyChar: "atom_has ci anyChar c = True"
  by (auto simp: anyChar_def set_has_def)

lemma atom_space: "atom_has ci space c = isSpace c"
  by (auto simp: space_def set_has_def isSpace_canon)

section \<open>The matcher\<close>

lemma can_start_None: "\<not> can_start ci r c \<Longrightarrow> m ci (R r # k) (c # cs) caps = None"
  by (induction ci r c arbitrary: k caps rule: can_start.induct) auto

lemma rx_match_Cons:
  "rx_match ci r (c # cs) =
     (if can_start ci r c
      then (case m ci [R r] (c # cs) Map.empty of Some x \<Rightarrow> Some x | None \<Rightarrow> rx_match ci r cs)
      else rx_match ci r cs)"
  by (simp add: can_start_None)

lemma replace_all_Cons:
  "replace_all ci r rep (c # cs) =
     (if can_start ci r c
      then (case m ci [R r] (c # cs) Map.empty of
              None \<Rightarrow> c # replace_all ci r rep cs
            | Some (rest, caps) \<Rightarrow>
                if length rest < length (c # cs) then rep @ replace_all ci r rep rest
                else rep @ c # replace_all ci r rep cs)
      else c # replace_all ci r rep cs)"
  by (simp add: can_start_None)

text \<open>A match never ends before its start, and a literal at its head consumes input.\<close>

lemma strip_length: "strip ci l s = Some rest \<Longrightarrow> length rest + length l = length s"
  by (induction ci l s rule: strip.induct) (auto split: if_splits)

lemma m_length: "m ci k s caps = Some (rest, caps') \<Longrightarrow> length rest \<le> length s"
proof (induction ci k s caps arbitrary: rest caps' rule: m.induct)
  case (1 ci s caps)
  then show ?case by simp
next
  case (2 ci l k s caps)
  show ?case
  proof (cases "strip ci l s")
    case None
    with "2.prems" show ?thesis by simp
  next
    case (Some t)
    with "2.prems" have "m ci k t caps = Some (rest, caps')" by simp
    from "2.IH" [OF Some this] strip_length [OF Some] show ?thesis by simp
  qed
next
  case (3 ci a k s caps)
  show ?case
  proof (cases s)
    case Nil
    with "3.prems" show ?thesis by simp
  next
    case (Cons c cs)
    with "3.prems" have h: "atom_has ci a c" "m ci k cs caps = Some (rest, caps')"
      by (auto split: if_splits)
    from "3.IH" [OF Cons h] Cons show ?thesis by simp
  qed
next
  case (4 ci a k s caps)
  show ?case
  proof (cases s)
    case Nil
    with "4.prems" have "m ci k s caps = Some (rest, caps')" by simp
    from "4.IH"(1) [OF Nil this] show ?thesis .
  next
    case (Cons c cs)
    show ?thesis
    proof (cases "atom_has ci a c")
      case True
      show ?thesis
      proof (cases "m ci (R (Star a) # k) cs caps")
        case None
        with "4.prems" Cons True have "m ci k s caps = Some (rest, caps')"
          by (simp del: m.simps(4) add: m.simps(4) [of ci a k "c # cs"])
        from "4.IH"(3) [OF Cons True None this] show ?thesis .
      next
        case (Some x)
        with "4.prems" Cons True have "m ci (R (Star a) # k) cs caps = Some (rest, caps')"
          by (simp del: m.simps(4) add: m.simps(4) [of ci a k "c # cs"])
        from "4.IH"(2) [OF Cons True this] Cons show ?thesis by simp
      qed
    next
      case False
      with "4.prems" Cons have "m ci k s caps = Some (rest, caps')"
        by (simp del: m.simps(4) add: m.simps(4) [of ci a k "c # cs"])
      from "4.IH"(4) [OF Cons False this] show ?thesis .
    qed
  qed
next
  case (5 ci a k s caps)
  show ?case
  proof (cases "m ci k s caps")
    case (Some x)
    with "5.prems" have "m ci k s caps = Some (rest, caps')"
      by (simp del: m.simps(5) add: m.simps(5) [of ci a k s])
    from "5.IH"(1) [OF this] show ?thesis .
  next
    case None
    show ?thesis
    proof (cases s)
      case Nil
      with "5.prems" None show ?thesis
        by (simp del: m.simps(5) add: m.simps(5) [of ci a k "[]"])
    next
      case (Cons c cs)
      with "5.prems" None have h: "atom_has ci a c" "m ci (R (LazyStar a) # k) cs caps = Some (rest, caps')"
        by (auto simp del: m.simps(5) simp add: m.simps(5) [of ci a k "c # cs"] split: if_splits)
      from "5.IH"(2) [OF None Cons h] Cons show ?thesis by simp
    qed
  qed
next
  case (6 ci a k s caps)
  show ?case
  proof (cases s)
    case Nil
    with "6.prems" show ?thesis by simp
  next
    case (Cons c cs)
    with "6.prems" have h: "atom_has ci a c" "m ci (R (Star a) # k) cs caps = Some (rest, caps')"
      by (auto simp del: m.simps(4) split: if_splits)
    from "6.IH" [OF Cons h] Cons show ?thesis by simp
  qed
next
  case (7 ci a k s caps)
  show ?case
  proof (cases s)
    case Nil
    with "7.prems" have "m ci k s caps = Some (rest, caps')" by simp
    from "7.IH"(1) [OF Nil this] show ?thesis .
  next
    case (Cons c cs)
    show ?thesis
    proof (cases "atom_has ci a c")
      case True
      show ?thesis
      proof (cases "m ci k cs caps")
        case None
        with "7.prems" Cons True have "m ci k s caps = Some (rest, caps')" by simp
        from "7.IH"(3) [OF Cons True None this] show ?thesis .
      next
        case (Some x)
        with "7.prems" Cons True have "m ci k cs caps = Some (rest, caps')" by simp
        from "7.IH"(2) [OF Cons True this] Cons show ?thesis by simp
      qed
    next
      case False
      with "7.prems" Cons have "m ci k s caps = Some (rest, caps')" by simp
      from "7.IH"(4) [OF Cons False this] show ?thesis .
    qed
  qed
next
  case (8 ci rs k s caps)
  then show ?case by simp
next
  case (9 ci k s caps)
  then show ?case by simp
next
  case (10 ci r rs k s caps)
  show ?case
  proof (cases "m ci (R r # k) s caps")
    case None
    with "10.prems" have "m ci (R (Alts rs) # k) s caps = Some (rest, caps')" by simp
    from "10.IH"(2) [OF None this] show ?thesis .
  next
    case (Some x)
    with "10.prems" have "m ci (R r # k) s caps = Some (rest, caps')" by simp
    from "10.IH"(1) [OF this] show ?thesis .
  qed
next
  case (11 ci n r k s caps)
  then show ?case by simp
next
  case (12 ci n s0 k s caps)
  from "12.prems" have "m ci k s (caps(n \<mapsto> (s0, s))) = Some (rest, caps')"
    by simp
  from "12.IH" [OF this] show ?case .
next
  case (13 ci n k s caps)
  show ?case
  proof (cases "caps n")
    case None
    with "13.prems" have "m ci k s caps = Some (rest, caps')" by simp
    from "13.IH"(1) [OF None this] show ?thesis .
  next
    case (Some p)
    show ?thesis
    proof (cases "strip ci (span p) s")
      case None
      with "13.prems" Some show ?thesis by simp
    next
      case (Some t)
      with "13.prems" \<open>caps n = Some p\<close> have "m ci k t caps = Some (rest, caps')" by simp
      from "13.IH"(2) [OF \<open>caps n = Some p\<close> Some this] strip_length [OF Some] show ?thesis by simp
    qed
  qed
next
  case (14 ci k s caps)
  then show ?case by (simp split: if_splits)
qed

lemma m_literal_progress:
  assumes "m ci [R (Cat (Lit (a # as) # rs))] s caps = Some (rest, caps')"
  shows "length rest < length s"
proof -
  from assms obtain t where t: "strip ci (a # as) s = Some t" "m ci (map R rs) t caps = Some (rest, caps')"
    by (auto split: option.splits)
  from strip_length [OF t(1)] m_length [OF t(2)] show ?thesis by simp
qed

lemma rx_match_literal_progress:
  "rx_match ci (Cat (Lit (a # as) # rs)) s = Some (rest, caps) \<Longrightarrow> length rest < length s"
proof (induction s)
  case Nil
  then show ?case by simp
next
  case (Cons c cs)
  show ?case
  proof (cases "m ci [R (Cat (Lit (a # as) # rs))] (c # cs) Map.empty")
    case None
    with Cons show ?thesis by (simp del: m.simps)
  next
    case (Some x)
    with Cons.prems have "m ci [R (Cat (Lit (a # as) # rs))] (c # cs) Map.empty = Some (rest, caps)"
      by (simp del: m.simps)
    from m_literal_progress [OF this] show ?thesis .
  qed
qed

lemma exec_all_progress:
  "exec_all ci (Cat (Lit (a # as) # rs)) s =
     (case rx_match ci (Cat (Lit (a # as) # rs)) s of
        None \<Rightarrow> []
      | Some (rest, caps) \<Rightarrow> caps # exec_all ci (Cat (Lit (a # as) # rs)) rest)"
proof (cases "rx_match ci (Cat (Lit (a # as) # rs)) s")
  case None
  then show ?thesis by (simp add: exec_all.simps [of _ _ s])
next
  case (Some x)
  obtain rest caps where x: "x = (rest, caps)" by (cases x)
  from rx_match_literal_progress [OF Some [unfolded x]] Some x show ?thesis
    by (simp add: exec_all.simps [of _ _ s])
qed

lemma replace_first_Cons:
  "replace_first ci r rep (c # cs) =
     (if can_start ci r c
      then (case m ci [R r] (c # cs) Map.empty of
              None \<Rightarrow> c # replace_first ci r rep cs
            | Some (rest, caps) \<Rightarrow> rep @ rest)
      else c # replace_first ci r rep cs)"
  by (simp add: can_start_None)

lemma split_loop_Cons:
  "split_loop ci r acc (c # cs) =
     (if can_start ci r c
      then (case m ci [R r] (c # cs) Map.empty of
        None \<Rightarrow> split_loop ci r (acc @ [c]) cs
      | Some (rest, caps) \<Rightarrow>
          if length rest < length (c # cs) then acc # split_loop ci r [] rest
          else if acc = [] then split_loop ci r [c] cs
          else acc # split_loop ci r [c] cs)
      else split_loop ci r (acc @ [c]) cs)"
  by (simp add: can_start_None)

lemma exec_all_Nil: "exec_all ci r [] = []"
  by (simp add: exec_all.simps split: option.splits)

lemma exec_all_Cons:
  "exec_all ci r (c # cs) =
     (case rx_match ci r (c # cs) of
        None \<Rightarrow> []
      | Some (rest, caps) \<Rightarrow>
          if length rest < length (c # cs) then caps # exec_all ci r rest else [])"
  by (rule exec_all.simps)

text \<open>The rules by which a concrete input is evaluated.\<close>

lemmas ev = exec_all_Nil exec_all_Cons same_True same_False canon_table lowerChar_table isSpace_eq
  atom_notGt atom_quote atom_notQuote atom_notDquote atom_anyChar atom_space
  rx_match_Cons replace_all_Cons replace_first_Cons split_loop_Cons set_has_def code_def
  grp_def span_def cleanText_def trim_def

lemmas noev = rx_match.simps(2) replace_all.simps(2) replace_first.simps(2) split_loop.simps(2)


section \<open>Substrings\<close>

lemma str_includes_sublist: "str_includes s p = sublist p s"
proof (induction s)
  case Nil
  then show ?case by simp
next
  case (Cons c cs)
  have "take (length p) (c # cs) = p \<longleftrightarrow> prefix p (c # cs)"
    by (metis append_eq_conv_conj prefix_def)
  then show ?case using Cons by (simp add: sublist_Cons_right)
qed

lemma endsWith_suffix: "endsWith s p = suffix p s"
  unfolding endsWith_def
  by (metis suffix_def suffix_length_le append_eq_conv_conj length_append add_diff_cancel_right' suffix_drop)

lemma strip_False: "strip False l s = (if prefix l s then Some (drop (length l) s) else None)"
proof (induction l arbitrary: s)
  case Nil
  then show ?case by simp
next
  case (Cons a l)
  then show ?case by (cases s) (auto simp: same_def)
qed

lemma rx_test_iff: "rx_test ci r s = (\<exists>xs t. s = xs @ t \<and> m ci [R r] t Map.empty \<noteq> None)"
proof (induction s)
  case Nil
  then show ?case by (simp add: rx_test_def)
next
  case (Cons c cs)
  have "rx_test ci r (c # cs) = (m ci [R r] (c # cs) Map.empty \<noteq> None \<or> rx_test ci r cs)"
    by (auto simp: rx_test_def split: option.splits)
  also have "\<dots> = (\<exists>xs t. c # cs = xs @ t \<and> m ci [R r] t Map.empty \<noteq> None)"
    unfolding Cons.IH by (auto simp: Cons_eq_append_conv) 
  finally show ?case .
qed

lemma sublist_prefix: "sublist p s = (\<exists>xs t. s = xs @ t \<and> prefix p t)"
  by (auto simp: sublist_def prefix_def)

lemma job_at:
  "(m False [R jobRegex] t Map.empty \<noteq> None) =
     (prefix ''careers'' t \<or> prefix ''jobs'' t \<or> prefix ''greenhouse.io'' t \<or> prefix ''lever.co'' t)"
  by (simp add: jobRegex_def strip_False)

lemma advertiser_at: "(m False [R advertiserRegex] t Map.empty \<noteq> None) = prefix ''ad'' t"
proof (cases "prefix ''ad'' t")
  case True
  then obtain u where "t = ''ad'' @ u"
    by (auto simp: prefix_def)
  then show ?thesis
    by (cases u) (simp_all add: advertiserRegex_def same_False split: option.splits)
next
  case False
  have "prefix ''advertis'' t \<Longrightarrow> prefix ''ad'' t"
    by (auto simp: prefix_def)
  with False show ?thesis
    by (auto simp: advertiserRegex_def strip_False)
qed

lemma classify_rules:
  "classify url =
     (let s = toLowerCase url in
      if suffix ''.pdf'' s \<or> sublist ''/pdf'' s then Pdf
      else if sublist ''x.com'' s \<or> sublist ''twitter.com'' s then X
      else if sublist ''reddit.com'' s then Reddit
      else if sublist ''careers'' s \<or> sublist ''jobs'' s \<or> sublist ''greenhouse.io'' s
              \<or> sublist ''lever.co'' s then Job
      else if sublist ''ad'' s then Advertiser
      else Article)"
proof -
  have j: "rx_test False jobRegex s = (sublist ''careers'' s \<or> sublist ''jobs'' s \<or> sublist ''greenhouse.io'' s
              \<or> sublist ''lever.co'' s)" for s
    unfolding rx_test_iff job_at sublist_prefix by blast
  have a: "rx_test False advertiserRegex s = sublist ''ad'' s" for s
    unfolding rx_test_iff advertiser_at sublist_prefix by blast
  show ?thesis
    unfolding classify_def str_includes_sublist endsWith_suffix j a by simp
qed

text \<open>Lower-casing keeps a lower-case substring and a lower-case ending.\<close>

lemma sublist_map: "sublist p s \<Longrightarrow> sublist (map f p) (map f s)"
  unfolding sublist_def by (metis map_append)

lemma suffix_map: "suffix p s \<Longrightarrow> suffix (map f p) (map f s)"
  by (auto simp: suffix_def)

lemmas sev = str_includes_sublist [symmetric] endsWith_suffix [symmetric]


section \<open>Properties of classify\<close>

text \<open>
  C4.  \<open>classify\<close> is a function from URL strings to the six tags, and its value is
  fixed by the first rule that applies to the lower-cased URL: the ending \<open>.pdf\<close>
  or the substring \<open>/pdf\<close>, then the substrings \<open>x.com\<close> or \<open>twitter.com\<close>, then
  \<open>reddit.com\<close>, then the job pattern (one of \<open>careers\<close>, \<open>jobs\<close>, \<open>greenhouse.io\<close>,
  \<open>lever.co\<close> occurs), then the advertiser pattern (which matches exactly when \<open>ad\<close>
  occurs), else \<open>article\<close>.  In particular a URL that contains \<open>reddit.com\<close> and ends
  in \<open>.pdf\<close> is tagged \<open>pdf\<close>.
\<close>

theorem classify_total_priority:
  "classify url =
     (let s = toLowerCase url in
      if suffix ''.pdf'' s \<or> sublist ''/pdf'' s then Pdf
      else if sublist ''x.com'' s \<or> sublist ''twitter.com'' s then X
      else if sublist ''reddit.com'' s then Reddit
      else if sublist ''careers'' s \<or> sublist ''jobs'' s \<or> sublist ''greenhouse.io'' s
              \<or> sublist ''lever.co'' s then Job
      else if sublist ''ad'' s then Advertiser
      else Article)
   \<and> (sublist ''reddit.com'' url \<and> suffix ''.pdf'' url \<longrightarrow> classify url = Pdf)"
proof -
  have "suffix ''.pdf'' url \<Longrightarrow> suffix ''.pdf'' (toLowerCase url)"
    using suffix_map [of "''.pdf''" url lowerChar] by (simp add: toLowerCase_def lowerChar_table)
  then show ?thesis
    using classify_rules [of url] by (simp add: Let_def)
qed


theorem classify_total_priority_witness:
  "sublist ''reddit.com'' ''https://www.reddit.com/r/ads/x.pdf'' \<and>
   suffix ''.pdf'' ''https://www.reddit.com/r/ads/x.pdf'' \<and>
   classify ''https://www.reddit.com/r/ads/x.pdf'' = Pdf \<and>
   classify ''https://old.Reddit.com/r/a/Paper.PDF'' = Pdf \<and>
   classify ''https://www.reddit.com/r/ads/'' = Reddit"
  using classify_total_priority [of "''https://www.reddit.com/r/ads/x.pdf''"]
    classify_total_priority [of "''https://old.Reddit.com/r/a/Paper.PDF''"]
    classify_total_priority [of "''https://www.reddit.com/r/ads/''"]
  by (simp add: sev toLowerCase_def lowerChar_table endsWith_def)

text \<open>
  C10, as stated, fails: a URL that contains \<open>x.com\<close> is tagged \<open>pdf\<close>, not \<open>x\<close>,
  when the earlier rule for PDF documents applies to it.
\<close>

theorem classify_whole_string_counterexample:
  "sublist ''x.com'' ''https://x.com/a.pdf'' \<and> classify ''https://x.com/a.pdf'' = Pdf"
  by (simp add: sev classify_def toLowerCase_def lowerChar_table endsWith_def)


text \<open>
  C10, amended.  The patterns are tested against the whole lower-cased URL, not its
  host: a URL to which the PDF rule does not apply and that contains \<open>x.com\<close> or
  \<open>twitter.com\<close> anywhere is tagged \<open>x\<close>; one to which neither of these rules applies
  and that contains \<open>reddit.com\<close> anywhere is tagged \<open>reddit\<close>; one to which no
  earlier rule applies and that contains \<open>ad\<close> anywhere is tagged \<open>advertiser\<close>.
\<close>

theorem classify_whole_string:
  "(let s = toLowerCase url;
        pdf = (suffix ''.pdf'' s \<or> sublist ''/pdf'' s);
        x = (sublist ''x.com'' s \<or> sublist ''twitter.com'' s);
        reddit = sublist ''reddit.com'' s;
        job = (sublist ''careers'' s \<or> sublist ''jobs'' s \<or> sublist ''greenhouse.io'' s
               \<or> sublist ''lever.co'' s)
    in (\<not> pdf \<and> x \<longrightarrow> classify url = X) \<and>
       (\<not> pdf \<and> \<not> x \<and> reddit \<longrightarrow> classify url = Reddit) \<and>
       (\<not> pdf \<and> \<not> x \<and> \<not> reddit \<and> \<not> job \<and> sublist ''ad'' s \<longrightarrow> classify url = Advertiser))"
  using classify_rules [of url] by (simp add: Let_def)


text \<open>A URL whose host is \<open>linux.com\<close> is tagged \<open>x\<close>, and \<open>download\<close> makes an advertiser.\<close>

theorem classify_whole_string_witness:
  "classify ''https://linux.com/news'' = X \<and>
   classify ''https://example.org/?sub=reddit.com'' = Reddit \<and>
   classify ''https://example.org/download'' = Advertiser"
  using classify_whole_string [of "''https://linux.com/news''"]
    classify_whole_string [of "''https://example.org/?sub=reddit.com''"]
    classify_whole_string [of "''https://example.org/download''"]
  by (simp add: sev toLowerCase_def lowerChar_table endsWith_def)


section \<open>Word count\<close>

lemma m_Star_end: "m ci [R (Star a)] s caps = Some (dropWhile (atom_has ci a) s, caps)"
  by (induction s) simp_all

lemma m_Plus_end:
  "m ci [R (Plus a)] (c # cs) caps =
     (if atom_has ci a c then Some (dropWhile (atom_has ci a) cs, caps) else None)"
  by (simp add: m_Star_end del: m.simps(4))

lemma splitOn_nonempty: "splitOn sep s \<noteq> []"
  by (induction s) (auto split: list.splits)

lemma splitOn_append:
  "\<forall>c \<in> set acc. \<not> sep c \<Longrightarrow>
     splitOn sep (acc @ s) = (acc @ hd (splitOn sep s)) # tl (splitOn sep s)"
proof (induction acc)
  case Nil
  then show ?case using splitOn_nonempty [of sep s] by simp
next
  case (Cons a acc)
  then show ?case by simp
qed

lemma tokens_sep: "isSpace c \<Longrightarrow> tokens (c # cs) = tokens cs"
  by (simp add: tokens_def)

lemma tokens_dropWhile: "tokens (dropWhile isSpace s) = tokens s"
  by (induction s) (simp_all add: tokens_sep)

lemma tokens_acc_sep:
  assumes "\<forall>c \<in> set acc. \<not> isSpace c" "isSpace c"
  shows "tokens (acc @ c # cs) = (if acc = [] then [] else [acc]) @ tokens cs"
  using assms splitOn_append [of acc isSpace "c # cs"] by (simp add: tokens_def)

lemma tokens_acc_end:
  assumes "\<forall>c \<in> set acc. \<not> isSpace c"
  shows "tokens acc = (if acc = [] then [] else [acc])"
  using assms splitOn_append [of acc isSpace "[]"] by (simp add: tokens_def)

lemma atom_space_fun: "atom_has ci space = isSpace"
  by (rule ext) (simp add: atom_space)

lemma split_loop_tokens:
  "\<forall>c \<in> set acc. \<not> isSpace c \<Longrightarrow>
     filter (\<lambda>w. w \<noteq> []) (split_loop False (Plus space) acc s) = tokens (acc @ s)"
proof (induction s arbitrary: acc rule: length_induct)
  case (1 s)
  show ?case
  proof (cases s)
    case Nil
    then show ?thesis using tokens_acc_end [OF "1.prems"] by simp
  next
    case (Cons c cs)
    show ?thesis
    proof (cases "isSpace c")
      case True
      have len: "length (dropWhile isSpace cs) < length s"
        using Cons length_dropWhile_le [of isSpace cs] by simp
      have "filter (\<lambda>w. w \<noteq> []) (split_loop False (Plus space) [] (dropWhile isSpace cs))
            = tokens (dropWhile isSpace cs)"
        using "1.IH" len by (metis append_Nil empty_iff list.set(1))
      then show ?thesis
        using True Cons len tokens_acc_sep [OF "1.prems" True, of cs]
        by (simp add: m_Plus_end atom_space_fun tokens_dropWhile del: m.simps(6))
    next
      case False
      have "filter (\<lambda>w. w \<noteq> []) (split_loop False (Plus space) (acc @ [c]) cs)
            = tokens ((acc @ [c]) @ cs)"
        using "1.IH" "1.prems" False Cons by simp
      then show ?thesis
        using False Cons by (simp add: m_Plus_end atom_space_fun del: m.simps(6))
    qed
  qed
qed

lemma split_tokens: "filter (\<lambda>w. w \<noteq> []) (split False (Plus space) s) = tokens s"
  using split_loop_tokens [of "[]" s] by (cases s) (simp_all add: split_def tokens_def)

lemma countWords_tokens: "countWords s = length (tokens s)"
  by (simp add: countWords_def split_tokens)

lemma readingTimeOf_div: "readingTimeOf n = (n + 199) div 200"
proof -
  define k where "k = (n + 199) div 200"
  have "n \<le> 200 * k" "200 * k < n + 200"
    unfolding k_def by arith+
  then have "of_nat n \<le> (of_nat (200 * k) :: real)" "(of_nat (200 * k) :: real) < of_nat (n + 200)"
    unfolding of_nat_le_iff of_nat_less_iff by simp_all
  then have "(of_nat n :: real) / 200 \<le> of_int (int k)" "of_int (int k) - 1 < (of_nat n :: real) / 200"
    by (simp_all add: field_simps)
  then have "\<lceil>(of_nat n :: real) / 200\<rceil> = int k"
    by (intro ceiling_unique) 
  then show ?thesis
    by (simp add: readingTimeOf_def k_def)
qed

lemma readingTimeOf_ceiling: "int (readingTimeOf n) = \<lceil>real n / 200\<rceil>"
proof -
  have "0 \<le> \<lceil>real n / 200\<rceil>"
    by simp
  then show ?thesis
    unfolding readingTimeOf_def by simp
qed


section \<open>Failure paths of parseHtml\<close>

lemma authorOfJsonLD_throws: "authorOfJsonLD js = Inl e \<Longrightarrow> e = nullPropertyError ''author''"
  by (induction js rule: authorOfJsonLD.induct)
     (auto split: if_splits option.splits json.splits)

lemma dateOfJsonLD_throws: "dateOfJsonLD js = Inl e \<Longrightarrow> e = nullPropertyError ''datePublished''"
  by (induction js rule: dateOfJsonLD.induct) (auto split: if_splits option.splits)

lemma extractAuthor_throws: "extractAuthor jp html = Inl e \<Longrightarrow> e = nullPropertyError ''author''"
  by (auto simp: extractAuthor_def Let_def dest: authorOfJsonLD_throws split: if_splits sum.splits option.splits)

lemma extractPublishDate_throws:
  "extractPublishDate jp html = Inl e \<Longrightarrow> e = nullPropertyError ''datePublished''"
  by (auto simp: extractPublishDate_def Let_def dest: dateOfJsonLD_throws
      split: if_splits sum.splits option.splits)

lemma parseHtmlTry_throws:
  "parseHtmlTry jp now html url = Inl e \<Longrightarrow>
     e = nullPropertyError ''author'' \<or> e = nullPropertyError ''datePublished''"
  by (auto simp: parseHtmlTry_def Let_def dest: extractAuthor_throws extractPublishDate_throws
      split: if_splits sum.splits)

lemma parseHtmlTry_success:
  "parseHtmlTry jp now html url = Inr r \<Longrightarrow>
     (success r \<and> error r = None) \<or> r = failure now url ''No valid HTML content found''"
  by (auto simp: parseHtmlTry_def Let_def split: if_splits sum.splits)

lemma parseHtml_success:
  assumes "success (parseHtml jp now html url)"
  shows "wordCount (data (parseHtml jp now html url)) = countWords (content (data (parseHtml jp now html url)))"
    "readingTime (data (parseHtml jp now html url)) = readingTimeOf (wordCount (data (parseHtml jp now html url)))"
    "contentType (data (parseHtml jp now html url)) = determineContentType (wordCount (data (parseHtml jp now html url)))"
  using assms
  by (auto simp: parseHtml_def parseHtmlTry_def failure_def Let_def split: sum.splits if_splits)

lemma extractedAt_parseHtml: "extractedAt (parseHtml jp now html url) = now"
  by (auto simp: parseHtml_def parseHtmlTry_def failure_def Let_def split: sum.splits)

lemma parseHtmlTry_clock:
  "parseHtmlTry jp now1 html url = map_sum id (\<lambda>r. r\<lparr>extractedAt := now1\<rparr>) (parseHtmlTry jp now2 html url)"
  by (auto simp: parseHtmlTry_def failure_def Let_def split: sum.splits)


section \<open>Two concrete runs\<close>

lemmas mdefs = extractMetaTag_def metaMatch_def metaRegexA_def metaRegexB_def orElse_def

lemma docWords_title: "extractTitle docWords = []"
  by (simp add: ev mdefs docWords_def extractTitle_def h1Title_def tagTitle_def h1Regex_def titleRegex_def del: noev)

lemma docWords_author: "extractAuthor jp docWords = Inr JNull"
  by (simp add: ev mdefs docWords_def extractAuthor_def relAuthor_def relAuthorRegex_def
      extractJsonLD_def jsonLDRegex_def authorByClass_def authorClassRegex_def del: noev)

lemma docWords_date: "extractPublishDate jp docWords = Inr JNull"
  by (simp add: ev mdefs docWords_def extractPublishDate_def timeRegex_def
      extractJsonLD_def jsonLDRegex_def del: noev)

lemma docWords_summary: "extractSummary docWords = []"
  by (simp add: ev mdefs docWords_def extractSummary_def summaryElement_def summaryElementRegex_def
      firstParagraph_def firstParagraphRegex_def del: noev)

lemma docWords_content:
  "extractMainContent docWords = ''one two three four five six seven eight nine ten''"
  by (simp add: ev docWords_def extractMainContent_def selectBody_def wrapperStep_def
      contentWrappers_def unwantedRegex_def paragraphRegex_def del: noev)

lemma docWords_language: "extractLanguage docWords = ''unknown''"
  by (simp add: ev docWords_def extractLanguage_def langRegex_def del: noev)

lemma docWords_url: "extractSourceUrl docWords None = []"
  by (simp add: ev mdefs docWords_def extractSourceUrl_def documentUrl_def canonicalRegex_def del: noev)

lemma docWords_count: "countWords ''one two three four five six seven eight nine ten'' = 10"
  by (simp add: ev countWords_def split_def del: noev)

lemma docWords_includes: "str_includes docWords ''<html''"
  by (simp add: docWords_def)

lemma docWords_parse:
  "parseHtml jp now docWords None =
     \<lparr>success = True, extractedAt = now, sourceUrl = [],
      data = \<lparr>title = [], author = JNull, publishDate = JNull, summary = [],
              content = ''one two three four five six seven eight nine ten'',
              wordCount = 10, readingTime = 1, language = ''unknown'', contentType = Minimal\<rparr>,
      error = None\<rparr>"
proof -
  have "docWords \<noteq> []"
    by (simp add: docWords_def)
  then show ?thesis
    by (simp add: parseHtml_def parseHtmlTry_def docWords_includes docWords_title docWords_author
        docWords_date docWords_summary docWords_content docWords_language docWords_url
        docWords_count readingTimeOf_div determineContentType_def)
qed

lemma docNullJsonLD_throws:
  "parseHtmlTry jsonParseNull now docNullJsonLD url = Inl (nullPropertyError ''author'')"
proof -
  have a: "extractAuthor jsonParseNull docNullJsonLD = Inl (nullPropertyError ''author'')"
    by (simp add: ev mdefs docNullJsonLD_def extractAuthor_def relAuthor_def relAuthorRegex_def
      extractJsonLD_def jsonLDRegex_def jsonParseNull_def del: noev)
  have "docNullJsonLD \<noteq> []" "str_includes docNullJsonLD ''<html''"
    by (simp_all add: docNullJsonLD_def)
  then show ?thesis
    by (simp add: parseHtmlTry_def a)
qed


section \<open>Properties of parseHtml\<close>

text \<open>
  C2.  When \<open>html\<close> is empty or does not contain \<open><html\<close>, \<open>parseHtml\<close> returns the
  failure result with the message \<open>No valid HTML content found\<close> and every data
  field at its zero value; the result does not depend on any extractor.
\<close>

theorem parseHtml_rejects_non_html:
  assumes "html = [] \<or> \<not> sublist ''<html'' html"
  shows "parseHtml jp now html url =
     \<lparr>success = False, extractedAt = now,
      sourceUrl = (case url of Some u \<Rightarrow> u | None \<Rightarrow> []),
      data = \<lparr>title = [], author = JNull, publishDate = JNull, summary = [], content = [],
              wordCount = 0, readingTime = 0, language = ''unknown'', contentType = Minimal\<rparr>,
      error = Some ''No valid HTML content found''\<rparr>"
  using assms by (auto simp: parseHtml_def parseHtmlTry_def failure_def str_includes_sublist)

theorem parseHtml_rejects_non_html_witness:
  "\<not> sublist ''<html'' ''<p>Hello</p>'' \<and>
   parseHtml jsonParseNull ''2025-01-01T00:00:00.000Z'' ''<p>Hello</p>'' (Some ''https://example.org/a'') =
     \<lparr>success = False, extractedAt = ''2025-01-01T00:00:00.000Z'',
      sourceUrl = ''https://example.org/a'',
      data = \<lparr>title = [], author = JNull, publishDate = JNull, summary = [], content = [],
              wordCount = 0, readingTime = 0, language = ''unknown'', contentType = Minimal\<rparr>,
      error = Some ''No valid HTML content found''\<rparr>"
proof -
  have h: "\<not> sublist ''<html'' ''<p>Hello</p>''"
    by (simp add: sev)
  then have "''<p>Hello</p>'' = [] \<or> \<not> sublist ''<html'' ''<p>Hello</p>''"
    by simp
  from parseHtml_rejects_non_html [OF this] h show ?thesis
    by simp
qed


text \<open>
  C1.  In every result of \<open>parseHtml\<close>, \<open>success = false\<close> implies that the data fields
  hold their zero values and that \<open>error\<close> is present and not empty, and
  \<open>success = true\<close> implies that \<open>error\<close> is absent.
\<close>

theorem parseHtml_result_invariant:
  "(\<not> success (parseHtml jp now html url) \<longrightarrow>
      data (parseHtml jp now html url) =
        \<lparr>title = [], author = JNull, publishDate = JNull, summary = [], content = [],
         wordCount = 0, readingTime = 0, language = ''unknown'', contentType = Minimal\<rparr> \<and>
      (\<exists>msg. error (parseHtml jp now html url) = Some msg \<and> msg \<noteq> [])) \<and>
   (success (parseHtml jp now html url) \<longrightarrow> error (parseHtml jp now html url) = None)"
proof (cases "parseHtmlTry jp now html url")
  case (Inl e)
  from parseHtmlTry_throws [OF Inl] have "catchMessage e \<noteq> []"
    by (auto simp: catchMessage_def nullPropertyError_def)
  with Inl show ?thesis
    by (simp add: parseHtml_def failure_def)
next
  case (Inr r)
  from parseHtmlTry_success [OF Inr] Inr show ?thesis
    by (auto simp: parseHtml_def failure_def)
qed


theorem parseHtml_result_invariant_witness:
  "\<not> success (parseHtml jsonParseNull ''2025-01-01T00:00:00.000Z'' docNullJsonLD None) \<and>
   data (parseHtml jsonParseNull ''2025-01-01T00:00:00.000Z'' docNullJsonLD None) =
     \<lparr>title = [], author = JNull, publishDate = JNull, summary = [], content = [],
      wordCount = 0, readingTime = 0, language = ''unknown'', contentType = Minimal\<rparr> \<and>
   (\<exists>msg. error (parseHtml jsonParseNull ''2025-01-01T00:00:00.000Z'' docNullJsonLD None) = Some msg
      \<and> msg \<noteq> []) \<and>
   success (parseHtml jsonParseNull ''2025-01-01T00:00:00.000Z'' docWords None) \<and>
   error (parseHtml jsonParseNull ''2025-01-01T00:00:00.000Z'' docWords None) = None"
proof -
  have f: "\<not> success (parseHtml jsonParseNull ''2025-01-01T00:00:00.000Z'' docNullJsonLD None)"
    by (simp add: parseHtml_def docNullJsonLD_throws failure_def)
  have s: "success (parseHtml jsonParseNull ''2025-01-01T00:00:00.000Z'' docWords None)"
    by (simp add: docWords_parse)
  from f s
    parseHtml_result_invariant [of jsonParseNull "''2025-01-01T00:00:00.000Z''" docNullJsonLD None]
    parseHtml_result_invariant [of jsonParseNull "''2025-01-01T00:00:00.000Z''" docWords None]
  show ?thesis
    by blast
qed

text \<open>
  C3 asks for a well-formed \<open>ParsedContent\<close> from every call; the interface declares
  \<open>author: string | null\<close>.  On this document, whose JSON-LD block gives the author
  a list of names, \<open>parseHtml\<close> reports success without an error, and the \<open>author\<close>
  of the result is that list: \<open>extractAuthor\<close> returns \<open>jsonLD.author.name\<close>
  whatever its type, where the branch before it tests \<open>typeof jsonLD.author\<close>.
\<close>

theorem parseHtml_author_not_string:
  \<open>success (parseHtml jsonParseAuthorNames ''2025-01-01T00:00:00.000Z'' docAuthorNames None) \<and>
   error (parseHtml jsonParseAuthorNames ''2025-01-01T00:00:00.000Z'' docAuthorNames None) = None \<and>
   author (data (parseHtml jsonParseAuthorNames ''2025-01-01T00:00:00.000Z'' docAuthorNames None)) =
     JArr [JStr ''Ann'', JStr ''Bob'']\<close>
proof -
  have j: \<open>extractJsonLD jsonParseAuthorNames docAuthorNames =
      [JObj [(''author'', JObj [(''name'', JArr [JStr ''Ann'', JStr ''Bob''])])]]\<close>
    by (simp add: ev extractJsonLD_def jsonLDRegex_def docAuthorNames_def jsonParseAuthorNames_def
        del: noev)
  have a: \<open>extractAuthor jsonParseAuthorNames docAuthorNames = Inr (JArr [JStr ''Ann'', JStr ''Bob''])\<close>
    unfolding extractAuthor_def j
    by (simp add: ev mdefs docAuthorNames_def relAuthor_def relAuthorRegex_def del: noev)
  have d: \<open>extractPublishDate jsonParseAuthorNames docAuthorNames = Inr JNull\<close>
    unfolding extractPublishDate_def j
    by (simp add: ev mdefs docAuthorNames_def timeRegex_def dateOf_def del: noev)
  have i: "docAuthorNames \<noteq> []" "str_includes docAuthorNames ''<html''"
    by (simp_all add: docAuthorNames_def)
  show ?thesis
    by (simp add: parseHtml_def parseHtmlTry_def i a d Let_def)
qed


text \<open>
  C5.  In every successful result, \<open>wordCount\<close> is the number of non-empty
  white-space-separated words of \<open>content\<close>, \<open>readingTime\<close> is the ceiling of
  \<open>wordCount / 200\<close>, and \<open>contentType\<close> is \<open>article\<close> iff \<open>wordCount > 500\<close>,
  \<open>short-form\<close> iff \<open>100 < wordCount \<le> 500\<close> and \<open>minimal\<close> iff \<open>wordCount \<le> 100\<close>.
\<close>

theorem parseHtml_metrics:
  assumes "success (parseHtml jp now html url)"
  shows "(let d = data (parseHtml jp now html url) in
          wordCount d = length (tokens (content d)) \<and>
          int (readingTime d) = \<lceil>real (wordCount d) / 200\<rceil> \<and>
          (contentType d = ArticleType \<longleftrightarrow> wordCount d > 500) \<and>
          (contentType d = ShortForm \<longleftrightarrow> 100 < wordCount d \<and> wordCount d \<le> 500) \<and>
          (contentType d = Minimal \<longleftrightarrow> wordCount d \<le> 100))"
  using parseHtml_success [OF assms]
  by (simp add: Let_def countWords_tokens readingTimeOf_ceiling determineContentType_def)

theorem parseHtml_metrics_witness:
  "success (parseHtml jsonParseNull ''2025-01-01T00:00:00.000Z'' docWords None) \<and>
   content (data (parseHtml jsonParseNull ''2025-01-01T00:00:00.000Z'' docWords None)) =
     ''one two three four five six seven eight nine ten'' \<and>
   length (tokens ''one two three four five six seven eight nine ten'') = 10 \<and>
   wordCount (data (parseHtml jsonParseNull ''2025-01-01T00:00:00.000Z'' docWords None)) = 10 \<and>
   readingTime (data (parseHtml jsonParseNull ''2025-01-01T00:00:00.000Z'' docWords None)) = 1 \<and>
   contentType (data (parseHtml jsonParseNull ''2025-01-01T00:00:00.000Z'' docWords None)) = Minimal"
proof -
  have s: "success (parseHtml jsonParseNull ''2025-01-01T00:00:00.000Z'' docWords None)"
    by (simp add: docWords_parse)
  from parseHtml_metrics [OF s] s show ?thesis
    by (simp add: docWords_parse Let_def)
qed


text \<open>
  C9, as stated, fails: two calls on the same document that read the clock at
  different times differ in \<open>extractedAt\<close>.
\<close>

theorem parseHtml_clock_counterexample:
  "parseHtml jsonParseNull ''2025-01-01T00:00:00.000Z'' ''<html><p>Hello</p></html>'' None \<noteq>
   parseHtml jsonParseNull ''2025-01-01T00:00:00.001Z'' ''<html><p>Hello</p></html>'' None"
proof
  assume "parseHtml jsonParseNull ''2025-01-01T00:00:00.000Z'' ''<html><p>Hello</p></html>'' None =
   parseHtml jsonParseNull ''2025-01-01T00:00:00.001Z'' ''<html><p>Hello</p></html>'' None"
  then have "extractedAt (parseHtml jsonParseNull ''2025-01-01T00:00:00.000Z'' ''<html><p>Hello</p></html>'' None) =
   extractedAt (parseHtml jsonParseNull ''2025-01-01T00:00:00.001Z'' ''<html><p>Hello</p></html>'' None)"
    by simp
  then show False
    by (simp add: extractedAt_parseHtml)
qed


text \<open>
  C9, amended.  For a fixed pair \<open>(html, url)\<close>, two calls of \<open>parseHtml\<close> return
  results equal in every field other than \<open>extractedAt\<close>, which holds the time read
  in the call; and each result of \<open>batchParseHtml\<close> is the result of \<open>parseHtml\<close> on
  its own document.
\<close>

theorem parseHtml_deterministic_but_clock:
  "parseHtml jp now1 html url = (parseHtml jp now2 html url)\<lparr>extractedAt := now1\<rparr> \<and>
   (i < length docs \<longrightarrow>
      batchParseHtml jp clock docs ! i = parseHtml jp (clock i) (fst (docs ! i)) (snd (docs ! i)))"
proof
  show "parseHtml jp now1 html url = (parseHtml jp now2 html url)\<lparr>extractedAt := now1\<rparr>"
    unfolding parseHtml_def parseHtmlTry_clock [of jp now1 html url now2]
    by (cases "parseHtmlTry jp now2 html url") (simp_all add: failure_def)
  show "i < length docs \<longrightarrow>
      batchParseHtml jp clock docs ! i = parseHtml jp (clock i) (fst (docs ! i)) (snd (docs ! i))"
    by (simp add: batchParseHtml_def nth_enumerate_eq split_beta)
qed


theorem parseHtml_deterministic_but_clock_witness:
  "parseHtml jsonParseNull ''2025-01-01T00:00:00.000Z'' docWords None =
     (parseHtml jsonParseNull ''2025-01-01T00:00:00.001Z'' docWords None)
       \<lparr>extractedAt := ''2025-01-01T00:00:00.000Z''\<rparr> \<and>
   (0::nat) < length [(docWords, None :: string option), (docNullJsonLD, None)] \<and>
   batchParseHtml jsonParseNull (\<lambda>i. ''2025-01-01T00:00:00.000Z'')
       [(docWords, None), (docNullJsonLD, None)] ! 0 =
     parseHtml jsonParseNull ''2025-01-01T00:00:00.000Z'' docWords None"
  using parseHtml_deterministic_but_clock
    [of jsonParseNull "''2025-01-01T00:00:00.000Z''" docWords None "''2025-01-01T00:00:00.001Z''" 0
        "[(docWords, None), (docNullJsonLD, None)]" "\<lambda>i. ''2025-01-01T00:00:00.000Z''"]
  by simp


section \<open>Letter case\<close>



section \<open>Literals\<close>






section \<open>A literal of the pattern occurs in every match\<close>



section \<open>Repetition\<close>






section \<open>Searching\<close>





section \<open>Literals in a lower-cased text\<close>










section \<open>Alternatives of literals\<close>



section \<open>An element: open tag, attributes, inner text, close tag\<close>





section \<open>Meta tags that are not there\<close>





section \<open>The summary element\<close>




section \<open>The first paragraph\<close>







section \<open>More on literals and repetition\<close>








section \<open>Matching a subject with a known head\<close>






section \<open>The value of a content attribute\<close>












section \<open>Where a meta tag can start\<close>





section \<open>The candidates of the title\<close>









section \<open>Trimming\<close>









section \<open>The site-name suffix\<close>














section \<open>Letter case of the documents\<close>




section \<open>Three runs on other documents\<close>

text \<open>
  The content pattern ends the value at the first quote of either kind; the
  suffix pattern keeps only the bar out of the site name, so without a bar it
  cuts at the first hyphen; and the paragraph pattern opens at every tag whose
  name starts with \<open>p\<close>.
\<close>

lemma extractTitle_quote_in_value:
  \<open>extractTitle ''<html><meta property="og:title" content="Don't Stop">'' = ''Don''\<close>
proof -
  have \<open>extractMetaTag ''og:title'' ''<html><meta property="og:title" content="Don't Stop">'' = ''Don''\<close>
    by (simp add: ev mdefs del: noev)
  then show ?thesis
    by (simp add: extractTitle_def)
qed

lemma extractTitle_first_hyphen: \<open>extractTitle docHyphenTitle = ''A well''\<close>
proof -
  have a: \<open>extractMetaTag name docHyphenTitle = []\<close> for name
    by (simp add: ev mdefs docHyphenTitle_def del: noev)
  have b: \<open>h1Title docHyphenTitle = []\<close>
    by (simp add: ev h1Title_def h1Regex_def docHyphenTitle_def del: noev)
  have c: \<open>rx_match True titleRegex docHyphenTitle =
      Some ([], [1 \<mapsto> (''A well-known fact - Example</title>'', ''</title>'')])\<close>
    by (simp add: ev titleRegex_def docHyphenTitle_def del: noev)
  have d: \<open>cleanText ''A well-known fact - Example'' = ''A well-known fact - Example''\<close>
    by (simp add: ev del: noev)
  have e: \<open>replace_first False siteNameRegex [] ''A well-known fact - Example'' = ''A well''\<close>
    by (simp add: ev siteNameRegex_def emDash_def del: noev)
  have f: \<open>trim ''A well'' = ''A well''\<close>
    by (simp add: trim_def isSpace_eq)
  have \<open>tagTitle docHyphenTitle = ''A well''\<close>
    by (simp add: tagTitle_def c grp_def span_def d e f del: noev)
  then show ?thesis
    by (simp add: extractTitle_def a b)
qed

lemma extractSummary_pre_element:
  \<open>extractSummary docPreformatted = ''0123456789 0123456789 0123456789 0123456789 012345Short.''\<close>
proof -
  have a: \<open>extractMetaTag name docPreformatted = []\<close> for name
    by (simp add: ev mdefs docPreformatted_def del: noev)
  have b: \<open>rx_match True summaryElementRegex docPreformatted = None\<close>
    by (simp add: ev summaryElementRegex_def docPreformatted_def del: noev)
  have c: \<open>rx_match True firstParagraphRegex docPreformatted =
      Some ([], [1 \<mapsto> (''0123456789 0123456789 0123456789 0123456789 012345</pre><p>Short.</p>'', ''</p>'')])\<close>
    by (simp add: ev firstParagraphRegex_def docPreformatted_def del: noev)
  have d: \<open>cleanText ''0123456789 0123456789 0123456789 0123456789 012345</pre><p>Short.'' =
      ''0123456789 0123456789 0123456789 0123456789 012345Short.''\<close>
    by (simp add: ev del: noev)
  have \<open>firstParagraph docPreformatted = ''0123456789 0123456789 0123456789 0123456789 012345Short.''\<close>
    by (simp add: firstParagraph_def c grp_def span_def d)
  then show ?thesis
    by (simp add: extractSummary_def orElse_def a summaryElement_def b)
qed


section \<open>Properties of the extractors\<close>






text \<open>
  C7 asks that of several matching containers the one with the longest inner HTML
  be taken.  On this document the \<open><article>\<close> pattern and the \<open><div class=...>\<close>
  pattern both match, the inner HTML of the \<open><div>\<close> is the longer one, and the
  \<open><article>\<close> is selected: for the two class patterns the loop reads \<open>match[1]\<close>,
  the class keyword, where the inner HTML is \<open>match[2]\<close>.  The content is empty.
\<close>

theorem extractMainContent_wrong_group:
  \<open>map_option (\<lambda>(rest, caps). grp caps 1) (rx_match True (contentWrappers ! 0) docTwoContainers) =
     Some ''<p>Teaser</p>'' \<and>
   map_option (\<lambda>(rest, caps). (grp caps 1, grp caps 2)) (rx_match True (contentWrappers ! 3) docTwoContainers) =
     Some (''post'', ''<p>The full story is told here in more than forty characters.</p>'') \<and>
   selectBody docTwoContainers = ''<p>Teaser</p>'' \<and>
   extractMainContent docTwoContainers = []\<close>
proof -
  have a: \<open>replace_all True unwantedRegex [] docTwoContainers = docTwoContainers\<close>
    by (simp add: ev unwantedRegex_def docTwoContainers_def del: noev)
  have b: \<open>map_option (\<lambda>(rest, caps). grp caps 1) (rx_match True (contentWrappers ! 0) docTwoContainers) =
     Some ''<p>Teaser</p>''\<close>
    by (simp add: ev contentWrappers_def docTwoContainers_def del: noev)
  have c: \<open>map_option (\<lambda>(rest, caps). (grp caps 1, grp caps 2)) (rx_match True (contentWrappers ! 3) docTwoContainers) =
     Some (''post'', ''<p>The full story is told here in more than forty characters.</p>'')\<close>
    by (simp add: ev contentWrappers_def docTwoContainers_def del: noev)
  have d: \<open>selectBody docTwoContainers = ''<p>Teaser</p>''\<close>
    by (simp add: ev selectBody_def wrapperStep_def contentWrappers_def docTwoContainers_def del: noev)
  have e: \<open>exec_all True paragraphRegex ''<p>Teaser</p>'' = [[1 \<mapsto> (''p>Teaser</p>'', ''>Teaser</p>''), 2 \<mapsto> (''Teaser</p>'', ''</p>'')]]\<close>
    by (simp add: ev paragraphRegex_def del: noev)
  have f: \<open>cleanText ''Teaser'' = ''Teaser''\<close>
    by (simp add: ev del: noev)
  have \<open>extractMainContent docTwoContainers = []\<close>
    by (simp add: extractMainContent_def a d e f grp_def span_def)
  with b c d show ?thesis
    by simp
qed







end
